theory Spec2Isabelle
  imports Main "HOL-Library.Word"
begin

section \<open>Files, byte strings and errors\<close>

text \<open>
  A file is the string of its bytes (a Go \<open>string\<close> and a Zig \<open>[]const u8\<close> are byte
  sequences too, and \<open>char\<close> is an 8-bit byte). The file system maps a path to the
  contents of the regular file stored there; \<open>None\<close> is a path \<open>os.Open\<close> cannot open.
  \<open>f.Stat\<close> on a file that was just opened is taken to succeed.
\<close>

type_synonym filesystem = "string \<Rightarrow> string option"

datatype go_error =
    OpenError               \<comment> \<open>\<open>os.Open\<close> failed, or a read from the nil file it left\<close>
  | UnableToGetType         \<comment> \<open>"unable to get AppImage type"\<close>
  | MissingType2Magic       \<comment> \<open>"AppImage missing AI 0x02 magic at offset 0x08!"\<close>
  | UnsupportedType         \<comment> \<open>"unsupported AppImage type"\<close>
  | OffsetVarNotFound       \<comment> \<open>"unable to find shappimage offset from sfs-offset variable"\<close>
  | NumError                \<comment> \<open>\<open>strconv.Atoi\<close>: syntax or range error\<close>
  | ElfFormatError string   \<comment> \<open>\<open>elf.NewFile\<close>: a \<open>*elf.FormatError\<close> with its message\<close>
  | UnexpectedEOF           \<comment> \<open>a read of a fixed-size header met the end of the file\<close>
  | LevelOutOfRange         \<comment> \<open>"permissions level must be int from 0-3"\<close>
  | MkdirError              \<comment> \<open>\<open>helpers.MakeTemp\<close> failed\<close>
  | MountError              \<comment> \<open>the \<open>Mount\<close> collaborator failed\<close>
  | GlobError               \<comment> \<open>\<open>filepath.Glob\<close> failed\<close>
  | ReadFileError           \<comment> \<open>\<open>ioutil.ReadFile\<close> failed\<close>

definition elf_magic :: string where
  "elf_magic = [CHR 0x7F, CHR ''E'', CHR ''L'', CHR ''F'']"

definition magic_AI1 :: string where
  "magic_AI1 = [CHR ''A'', CHR ''I'', CHR 0x01]"

definition magic_AI2 :: string where
  "magic_AI2 = [CHR ''A'', CHR ''I'', CHR 0x02]"

definition shimg_magic :: string where
  "shimg_magic = ''#!/bin/sh\<newline>#.shImg.#''"


section \<open>helpers/offset.go: format detection\<close>

text \<open>
  \<open>HasMagic\<close> seeks to \<open>offset\<close>, reads \<open>len(str)\<close> bytes with \<open>io.ReadFull\<close> (a short
  read is an error, answered with \<open>false\<close>) and compares them with \<open>str\<close> byte by byte.
\<close>

definition HasMagic :: "string \<Rightarrow> string \<Rightarrow> nat \<Rightarrow> bool" where
  "HasMagic r str offset =
     (let magic = take (length str) (drop offset r)
      in if length magic < length str then False else magic = str)"

text \<open>
  \<open>GetAppImageType\<close> returns \<open>1\<close> (type 1), \<open>2\<close> (type 2), \<open>0\<close> (a valid ELF that is
  no known AppImage), \<open>-2\<close> (shappimage), or an error. The spec's names for these are
  \<open>Type1Elf\<close>, \<open>Type2Elf\<close>, \<open>UnknownElf\<close>, \<open>ShellScript\<close> and \<open>InvalidFormat\<close>.
\<close>

definition GetAppImageType :: "filesystem \<Rightarrow> string \<Rightarrow> go_error + int" where
  "GetAppImageType fs src =
     (case fs src of
        None \<Rightarrow> Inl OpenError
      | Some f \<Rightarrow>
          if HasMagic f elf_magic 0 then
            (if HasMagic f magic_AI1 8 then Inr 1
             else if HasMagic f magic_AI2 8 then Inr 2
             else Inr 0)
          else if HasMagic f shimg_magic 0 then Inr (- 2)
          else Inl UnableToGetType)"


section \<open>helpers/offset.go: the shappimage offset\<close>

text \<open>
  \<open>bufio.Scanner\<close> with the default split function \<open>ScanLines\<close>: the tokens are the
  chunks between newlines, a last chunk without a newline counts when it is not empty,
  and one trailing carriage return is dropped from each token. A chunk of
  \<open>MaxScanTokenSize = 65536\<close> bytes or more does not fit the buffer: \<open>Scan\<close> then
  returns false and the loop over the lines ends there.
\<close>

fun scan_chunks :: "string \<Rightarrow> string \<Rightarrow> string list" where
  "scan_chunks acc [] = (if acc = [] then [] else [acc])"
| "scan_chunks acc (c # cs) =
     (if c = CHR 0x0A then acc # scan_chunks [] cs else scan_chunks (acc @ [c]) cs)"

definition dropCR :: "string \<Rightarrow> string" where
  "dropCR data = (if data \<noteq> [] \<and> last data = CHR 0x0D then butlast data else data)"

definition MaxScanTokenSize :: nat where
  "MaxScanTokenSize = 65536"

definition Scanner_lines :: "string \<Rightarrow> string list" where
  "Scanner_lines f =
     map dropCR (takeWhile (\<lambda>chunk. length chunk < MaxScanTokenSize) (scan_chunks [] f))"

text \<open>\<open>strings.Split(s, sep)\<close> for a separator of one byte: one part more than separators.\<close>

fun split_from :: "string \<Rightarrow> string \<Rightarrow> char \<Rightarrow> string list" where
  "split_from part [] sep = [part]"
| "split_from part (c # cs) sep =
     (if c = sep then part # split_from [] cs sep else split_from (part @ [c]) cs sep)"

definition strings_Split :: "string \<Rightarrow> char \<Rightarrow> string list" where
  "strings_Split s sep = split_from [] s sep"

text \<open>\<open>strings.ReplaceAll(s, old, "")\<close> for an \<open>old\<close> of one byte deletes every such byte.\<close>

definition strings_ReplaceAll_empty :: "string \<Rightarrow> char \<Rightarrow> string" where
  "strings_ReplaceAll_empty s old = filter (\<lambda>c. c \<noteq> old) s"

text \<open>
  \<open>strconv.Atoi\<close>: an optional sign, then one or more decimal digits, nothing else; the
  value must fit Go's \<open>int\<close>, which has 64 bits on the platforms the program is built
  for. Every failure is a \<open>*strconv.NumError\<close>.
\<close>

definition is_digit :: "char \<Rightarrow> bool" where
  "is_digit c = (48 \<le> (of_char c :: nat) \<and> (of_char c :: nat) \<le> 57)"

definition digit_val :: "char \<Rightarrow> nat" where
  "digit_val c = of_char c - 48"

definition dec_value :: "string \<Rightarrow> nat" where
  "dec_value s = foldl (\<lambda>n c. 10 * n + digit_val c) 0 s"

definition strconv_Atoi :: "string \<Rightarrow> go_error + int" where
  "strconv_Atoi s =
     (if s = [] then Inl NumError
      else
        let neg = (hd s = CHR ''-'');
            body = (if hd s = CHR ''-'' \<or> hd s = CHR ''+'' then tl s else s)
        in if body = [] \<or> \<not> list_all is_digit body then Inl NumError
           else
             let v = (if neg then - int (dec_value body) else int (dec_value body))
             in if v < - (2 ^ 63) \<or> 2 ^ 63 - 1 < v then Inl NumError else Inr v)"

text \<open>
  The loop of \<open>getShappImageSize\<close> over the scanner's lines. A line counts when it is
  longer than 10 bytes, starts with \<open>sfs_offset=\<close> and splits at \<open>=\<close> into exactly two
  parts; the function returns at the first such line, with what \<open>Atoi\<close> makes of the
  second part once every quote character is deleted from it.
\<close>

fun scan_sfs_offset :: "string list \<Rightarrow> go_error + int" where
  "scan_sfs_offset [] = Inl OffsetVarNotFound"
| "scan_sfs_offset (text # rest) =
     (if length text > 10 \<and> take 11 text = ''sfs_offset='' \<and>
         length (strings_Split text (CHR ''='')) = 2
      then
        (let offHex = strings_Split text (CHR ''='') ! 1;
             offHex = strings_ReplaceAll_empty offHex (CHR 0x27);
             offHex = strings_ReplaceAll_empty offHex (CHR 0x22)
         in strconv_Atoi offHex)
      else scan_sfs_offset rest)"

definition getShappImageSize :: "filesystem \<Rightarrow> string \<Rightarrow> go_error + int" where
  "getShappImageSize fs src =
     (case fs src of
        None \<Rightarrow> Inl OpenError
      | Some f \<Rightarrow> scan_sfs_offset (Scanner_lines f))"


section \<open>helpers/offset.go: the ELF offset\<close>

text \<open>
  \<open>elf.NewFile\<close> belongs to Go's standard library (\<open>debug/elf\<close>). \<open>getElfSize\<close> uses two
  fields of the file it returns: the class and the byte order. The parser is a parameter
  \<open>nf\<close> of the functions below; \<open>elf_NewFile\<close> further down is the library's own parser
  as far as the identification bytes go. \<open>getElfSize\<close> drops the error of \<open>os.Open\<close>; on
  the nil file of a failed open the parser's first read fails, and that error is returned.
\<close>

datatype elf_Class = ELFCLASSNONE | ELFCLASS32 | ELFCLASS64 | ELFCLASS_other nat

datatype ByteOrder = LittleEndian | BigEndian

record elf_File =
  Class :: elf_Class
  ByteOrder :: ByteOrder

text \<open>
  \<open>binary.Read(sr, order, hdr)\<close> fills the fixed-size header from the first bytes of the
  file (64 bytes for \<open>elf.Header64\<close>, 52 for \<open>elf.Header32\<close>) in the given byte order
  and fails when the file is shorter. Of the header, the fields the function reads are
  kept: \<open>Shoff\<close>, \<open>Shentsize\<close>, \<open>Shnum\<close>.
\<close>

fun le_nat :: "string \<Rightarrow> nat" where
  "le_nat [] = 0"
| "le_nat (c # cs) = of_char c + 256 * le_nat cs"

definition decode_uint :: "ByteOrder \<Rightarrow> string \<Rightarrow> nat" where
  "decode_uint order bs = (case order of LittleEndian \<Rightarrow> le_nat bs | BigEndian \<Rightarrow> le_nat (rev bs))"

definition field_at :: "ByteOrder \<Rightarrow> string \<Rightarrow> nat \<Rightarrow> nat \<Rightarrow> nat" where
  "field_at order f off width = decode_uint order (take width (drop off f))"

record Header64 =
  Shoff :: "64 word"
  Shentsize :: "16 word"
  Shnum :: "16 word"

record Header32 =
  Shoff32 :: "32 word"
  Shentsize32 :: "16 word"
  Shnum32 :: "16 word"

definition binary_Read_Header64 :: "ByteOrder \<Rightarrow> string \<Rightarrow> go_error + Header64" where
  "binary_Read_Header64 order f =
     (if length f < 64 then Inl UnexpectedEOF
      else Inr \<lparr>Shoff = of_nat (field_at order f 40 8),
                Shentsize = of_nat (field_at order f 58 2),
                Shnum = of_nat (field_at order f 60 2)\<rparr>)"

definition binary_Read_Header32 :: "ByteOrder \<Rightarrow> string \<Rightarrow> go_error + Header32" where
  "binary_Read_Header32 order f =
     (if length f < 52 then Inl UnexpectedEOF
      else Inr \<lparr>Shoff32 = of_nat (field_at order f 32 4),
                Shentsize32 = of_nat (field_at order f 46 2),
                Shnum32 = of_nat (field_at order f 48 2)\<rparr>)"

text \<open>
  Go's \<open>int\<close> is a signed 64-bit integer whose arithmetic wraps around; \<open>go_int\<close> reduces
  a mathematical integer to it. \<open>int(hdr.Shoff)\<close> reinterprets the unsigned 64-bit field
  as signed; the 16-bit and 32-bit fields convert without change.
\<close>

definition go_int :: "int \<Rightarrow> int" where
  "go_int x = sint (word_of_int x :: 64 word)"

definition getElfSize ::
  "(string \<Rightarrow> go_error + elf_File) \<Rightarrow> filesystem \<Rightarrow> string \<Rightarrow> go_error + int" where
  "getElfSize nf fs src =
     (case fs src of
        None \<Rightarrow> Inl OpenError
      | Some f \<Rightarrow>
          (case nf f of
             Inl err \<Rightarrow> Inl err
           | Inr e \<Rightarrow>
               (case Class e of
                  ELFCLASS64 \<Rightarrow>
                    (case binary_Read_Header64 (ByteOrder e) f of
                       Inl err \<Rightarrow> Inl err
                     | Inr hdr \<Rightarrow>
                         (let shoff = sint (Shoff hdr);
                              shnum = uint (Shnum hdr);
                              shentsize = uint (Shentsize hdr)
                          in Inr (go_int (shoff + go_int (shentsize * shnum)))))
                | ELFCLASS32 \<Rightarrow>
                    (case binary_Read_Header32 (ByteOrder e) f of
                       Inl err \<Rightarrow> Inl err
                     | Inr hdr \<Rightarrow>
                         (let shoff = uint (Shoff32 hdr);
                              shnum = uint (Shnum32 hdr);
                              shentsize = uint (Shentsize32 hdr)
                          in Inr (go_int (shoff + go_int (shentsize * shnum)))))
                | _ \<Rightarrow> Inr 0)))"

definition GetOffset ::
  "(string \<Rightarrow> go_error + elf_File) \<Rightarrow> filesystem \<Rightarrow> string \<Rightarrow> go_error + int" where
  "GetOffset nf fs src =
     (case GetAppImageType fs src of
        Inl err \<Rightarrow> Inl err
      | Inr format \<Rightarrow>
          if format = - 2 then getShappImageSize fs src
          else if format = 2 then getElfSize nf fs src
          else if format = 0 then Inl MissingType2Magic
          else Inl UnsupportedType)"

text \<open>
  The standard library's \<open>elf.NewFile\<close>, as far as the 16 identification bytes go: the
  magic number, the class byte (1 is 32-bit, 2 is 64-bit, anything else is the format
  error "unknown ELF class"), the data byte (1 little endian, 2 big endian) and the
  version byte (1). What it parses after that (the header, the program and section
  tables) can fail too; \<open>rest_ok\<close> says whether it goes through.
\<close>

definition elf_NewFile :: "(string \<Rightarrow> bool) \<Rightarrow> string \<Rightarrow> go_error + elf_File" where
  "elf_NewFile rest_ok f =
     (if length f < 16 then Inl UnexpectedEOF
      else if take 4 f \<noteq> elf_magic then Inl (ElfFormatError ''bad magic number'')
      else if of_char (f ! 4) \<noteq> (1::nat) \<and> of_char (f ! 4) \<noteq> (2::nat)
        then Inl (ElfFormatError ''unknown ELF class'')
      else if of_char (f ! 5) \<noteq> (1::nat) \<and> of_char (f ! 5) \<noteq> (2::nat)
        then Inl (ElfFormatError ''unknown ELF data encoding'')
      else if of_char (f ! 6) \<noteq> (1::nat) then Inl (ElfFormatError ''unknown ELF version'')
      else if \<not> rest_ok f then Inl (ElfFormatError ''bad header or tables'')
      else Inr \<lparr>Class = (if of_char (f ! 4) = (1::nat) then ELFCLASS32 else ELFCLASS64),
                ByteOrder = (if of_char (f ! 5) = (1::nat) then LittleEndian else BigEndian)\<rparr>)"

text \<open>
  After the identification bytes the library reads the header (64 bytes, or 52 for the
  32-bit class) and the two tables the header points at. \<open>header_tables\<close> reads the
  seven header fields that place them, at the offsets of \<open>elf.Header64\<close> and
  \<open>elf.Header32\<close>, and \<open>tables_in_file\<close> is the parse as far as these reads go: the
  header is there; a program header table has entries of at least the size of the class
  (56 or 32 bytes) and ends within the file; a section header table starts after offset
  0, has entries of at least 64 or 40 bytes, holds the section of the section names
  (\<open>e_shstrndx\<close> below \<open>e_shnum\<close>) and ends within the file. A file whose table would
  reach beyond its end is refused, as the library's read of the table hits the end of
  the file. A section count of 0 goes with a table offset of 0 only (the extended
  numbering of more than 65279 sections is left out), and the contents of the entries,
  which the library checks for a file with a section-name table or compressed sections,
  are not looked at.
\<close>

record elf_tables =
  e_phoff :: nat
  e_phentsize :: nat
  e_phnum :: nat
  e_shoff :: nat
  e_shentsize :: nat
  e_shnum :: nat
  e_shstrndx :: nat

definition header_tables :: "string \<Rightarrow> elf_tables" where
  "header_tables f =
     (let order = (if of_char (f ! 5) = (1::nat) then LittleEndian else BigEndian)
      in if of_char (f ! 4) = (1::nat)
         then \<lparr>e_phoff = field_at order f 28 4, e_phentsize = field_at order f 42 2,
               e_phnum = field_at order f 44 2, e_shoff = field_at order f 32 4,
               e_shentsize = field_at order f 46 2, e_shnum = field_at order f 48 2,
               e_shstrndx = field_at order f 50 2\<rparr>
         else \<lparr>e_phoff = field_at order f 32 8, e_phentsize = field_at order f 54 2,
               e_phnum = field_at order f 56 2, e_shoff = field_at order f 40 8,
               e_shentsize = field_at order f 58 2, e_shnum = field_at order f 60 2,
               e_shstrndx = field_at order f 62 2\<rparr>)"

definition tables_in_file :: "string \<Rightarrow> bool" where
  "tables_in_file f =
     (let wide = (of_char (f ! 4) \<noteq> (1::nat));
          t = header_tables f
      in (if wide then 64 else 52) \<le> length f
         \<and> (e_phnum t = 0
              \<or> (if wide then 56 else 32) \<le> e_phentsize t
                 \<and> e_phoff t + e_phentsize t * e_phnum t \<le> length f)
         \<and> (if e_shnum t = 0 then e_shoff t = 0
             else 0 < e_shoff t \<and> (if wide then 64 else 40) \<le> e_shentsize t
                  \<and> e_shstrndx t < e_shnum t
                  \<and> e_shoff t + e_shentsize t * e_shnum t \<le> length f))"


section \<open>The Zig implementation: kind detection and offsets\<close>

text \<open>
  The repository's Zig library has the same three steps. A Zig function returns a value
  or an error of its error set; an integer overflow in safety-checked arithmetic is a
  panic, listed here beside the errors as \<open>Panic_integer_overflow\<close>.
\<close>

datatype zig_failure =
    InvalidFormat
  | InvalidFromat               \<comment> \<open>as spelt in \<open>getKind\<close>: an error of its own\<close>
  | UnknownAppImageVersion
  | NotShimg
  | StreamTooLong               \<comment> \<open>\<open>readUntilDelimiterOrEof\<close>: the line does not fit the buffer\<close>
  | InvalidCharacter            \<comment> \<open>\<open>std.fmt.parseInt\<close>\<close>
  | Overflow                    \<comment> \<open>\<open>std.fmt.parseInt\<close>\<close>
  | ElfHeaderError              \<comment> \<open>any error of \<open>std.elf.Header.read\<close>\<close>
  | FileError                   \<comment> \<open>any error of opening or reading a file of the image\<close>
  | Panic_integer_overflow

datatype Kind = shimg | type1 | type2

definition getKind :: "string \<Rightarrow> zig_failure + Kind" where
  "getKind file =
     (let buf = take 19 file; read_len = length buf
      in if read_len < 19 then Inl InvalidFormat
         else if buf = shimg_magic then Inr shimg
         else if take 4 buf = elf_magic then
           (if take 2 (drop 8 buf) \<noteq> ''AI'' then Inl InvalidFromat
            else if of_char (buf ! 10) = (1::nat) then Inr type1
            else if of_char (buf ! 10) = (2::nat) then Inr type2
            else Inl UnknownAppImageVersion)
         else Inl InvalidFormat)"

text \<open>
  \<open>std.elf.Header.read\<close> is the standard library's; it is the parameter \<open>read\<close>. Of the
  header it returns, the function uses \<open>shoff: u64\<close>, \<open>shentsize: u16\<close> and \<open>shnum: u16\<close>.
  Zig multiplies two \<open>u16\<close> operands in \<open>u16\<close> and only then widens the product for the
  addition to the \<open>u64\<close>; both operations are overflow-checked.
\<close>

record elf_Header =
  shoff :: "64 word"
  shentsize :: "16 word"
  shnum :: "16 word"

definition getOffsetFromElf ::
  "(string \<Rightarrow> zig_failure + elf_Header) \<Rightarrow> string \<Rightarrow> zig_failure + 64 word" where
  "getOffsetFromElf read file =
     (case read file of
        Inl err \<Rightarrow> Inl err
      | Inr header \<Rightarrow>
          if 2 ^ 16 \<le> unat (shentsize header) * unat (shnum header)
          then Inl Panic_integer_overflow
          else
            (let prod = shentsize header * shnum header
             in if 2 ^ 64 \<le> unat (shoff header) + unat prod
                then Inl Panic_integer_overflow
                else Inr (shoff header + ucast prod)))"

text \<open>
  \<open>std.fmt.parseInt(u64, buf, 0)\<close>: an optional sign; with base 0 a prefix \<open>0b\<close>,
  \<open>0o\<close> or \<open>0x\<close> (either case) on a text longer than two bytes selects base 2, 8 or 16,
  the default is 10; underscores between digits are skipped, one at either end is an
  \<open>InvalidCharacter\<close>; the digits accumulate from the left and a value that leaves
  \<open>u64\<close> is an \<open>Overflow\<close>.
\<close>

definition toLower :: "char \<Rightarrow> char" where
  "toLower c =
     (if 65 \<le> (of_char c :: nat) \<and> (of_char c :: nat) \<le> 90
      then char_of ((of_char c :: nat) + 32) else c)"

definition charToDigit :: "char \<Rightarrow> nat \<Rightarrow> zig_failure + nat" where
  "charToDigit c radix =
     (let n = (of_char c :: nat);
          v = (if 48 \<le> n \<and> n \<le> 57 then Some (n - 48)
               else if 65 \<le> n \<and> n \<le> 90 then Some (n - 65 + 10)
               else if 97 \<le> n \<and> n \<le> 122 then Some (n - 97 + 10)
               else None)
      in case v of
           None \<Rightarrow> Inl InvalidCharacter
         | Some d \<Rightarrow> if radix \<le> d then Inl InvalidCharacter else Inr d)"

fun parse_digits :: "bool \<Rightarrow> nat \<Rightarrow> nat \<Rightarrow> string \<Rightarrow> zig_failure + nat" where
  "parse_digits neg base x [] = Inr x"
| "parse_digits neg base x (c # cs) =
     (if c = CHR ''_'' then parse_digits neg base x cs
      else
        (case charToDigit c base of
           Inl err \<Rightarrow> Inl err
         | Inr digit \<Rightarrow>
             if neg then (if digit = 0 then parse_digits neg base x cs else Inl Overflow)
             else if 2 ^ 64 \<le> x * base + digit then Inl Overflow
             else parse_digits neg base (x * base + digit) cs))"

definition parseWithSign :: "string \<Rightarrow> bool \<Rightarrow> zig_failure + 64 word" where
  "parseWithSign buf neg =
     (if buf = [] then Inl InvalidCharacter
      else
        let pre = (length buf > 2 \<and> hd buf = CHR ''0'');
            buf_base = (if pre \<and> toLower (buf ! 1) = CHR ''b'' then 2
                        else if pre \<and> toLower (buf ! 1) = CHR ''o'' then 8
                        else if pre \<and> toLower (buf ! 1) = CHR ''x'' then 16
                        else (10::nat));
            buf_start = (if buf_base = 10 then buf else drop 2 buf)
        in if hd buf_start = CHR ''_'' \<or> last buf_start = CHR ''_'' then Inl InvalidCharacter
           else map_sum id of_nat (parse_digits neg buf_base 0 buf_start))"

definition parseInt :: "string \<Rightarrow> zig_failure + 64 word" where
  "parseInt buf =
     (if buf = [] then Inl InvalidCharacter
      else if hd buf = CHR ''+'' then parseWithSign (tl buf) False
      else if hd buf = CHR ''-'' then parseWithSign (tl buf) True
      else parseWithSign buf False)"

text \<open>
  \<open>std.mem.tokenize(u8, text, "=")\<close> yields the non-empty runs of bytes between the
  delimiters, in order.
\<close>

definition tokenize :: "string \<Rightarrow> char \<Rightarrow> string list" where
  "tokenize text delim = filter (\<lambda>t. t \<noteq> []) (strings_Split text delim)"

text \<open>
  The loop of \<open>getOffsetFromShimg\<close>. \<open>readUntilDelimiterOrEof\<close> with the 256-byte buffer
  hands over the next chunk up to a newline (the last chunk, if not empty, at the end of
  the file) and fails with \<open>StreamTooLong\<close> on a chunk of 256 bytes or more. The counter
  \<open>line\<close> is incremented before the test, so the 513th line read ends the scan.
\<close>

fun shimg_lines :: "nat \<Rightarrow> string list \<Rightarrow> zig_failure + 64 word" where
  "shimg_lines line [] = Inl InvalidFormat"
| "shimg_lines line (text # rest) =
     (if 255 < length text then Inl StreamTooLong
      else if 512 < line + 1 then Inl NotShimg
      else if length text > 10 \<and> take 11 text = ''sfs_offset='' then
        (case tokenize text (CHR ''='') of
           _ # tok # _ \<Rightarrow> parseInt tok
         | _ \<Rightarrow> Inl NotShimg)
      else shimg_lines (line + 1) rest)"

definition getOffsetFromShimg :: "string \<Rightarrow> zig_failure + 64 word" where
  "getOffsetFromShimg file = shimg_lines 0 (scan_chunks [] file)"

text \<open>The first steps of \<open>open\<close>: the kind, then the offset the kind calls for.\<close>

definition open_offset ::
  "(string \<Rightarrow> zig_failure + elf_Header) \<Rightarrow> string \<Rightarrow> zig_failure + 64 word" where
  "open_offset read file =
     (case getKind file of
        Inl err \<Rightarrow> Inl err
      | Inr kind \<Rightarrow>
          (case kind of
             type1 \<Rightarrow> getOffsetFromElf read file
           | type2 \<Rightarrow> getOffsetFromElf read file
           | shimg \<Rightarrow> getOffsetFromShimg file))"

text \<open>
  \<open>loadDesktopEntry\<close> walks the entries of the image's root directory. An entry is its
  name and what opening and reading it gives. \<open>std.fs.path.extension\<close> is the part of
  the name from its last dot on, empty when there is no dot or the only dot leads the
  name. The loop sets \<open>found\<close> and fills the buffer; the function then returns 0.
\<close>

definition path_extension :: "string \<Rightarrow> string" where
  "path_extension name =
     (let after = takeWhile (\<lambda>c. c \<noteq> CHR ''.'') (rev name)
      in if length after = length name then []
         else if length after + 1 = length name then []
         else drop (length name - length after - 1) name)"

definition readAll :: "string \<Rightarrow> string \<Rightarrow> string" where
  "readAll buf content = take (length buf) content @ drop (length content) buf"

fun desktop_loop ::
  "bool \<Rightarrow> string \<Rightarrow> (string \<times> (zig_failure + string)) list \<Rightarrow> zig_failure + (bool \<times> string)" where
  "desktop_loop found buf [] = Inr (found, buf)"
| "desktop_loop found buf ((name, file) # rest) =
     (if path_extension name \<noteq> ''.desktop'' then desktop_loop found buf rest
      else
        (case file of
           Inl err \<Rightarrow> Inl err
         | Inr content \<Rightarrow> desktop_loop True (readAll buf content) rest))"

definition loadDesktopEntry ::
  "(string \<times> (zig_failure + string)) list \<Rightarrow> string \<Rightarrow> zig_failure + (nat \<times> string)" where
  "loadDesktopEntry root buf =
     (case desktop_loop False buf root of
        Inl err \<Rightarrow> Inl err
      | Inr (found, buf') \<Rightarrow> Inr (0, buf'))"


section \<open>aisap.go: the AppImage, its permissions and the package variables\<close>

datatype go_panic =
    SliceBoundsOutOfRange
  | IndexOutOfRange
  | NilPointerDereference

text \<open>
  \<open>permissions.AppImagePerms\<close> with the fields the file uses. \<open>AppImage.Perms\<close> is a
  pointer: \<open>None\<close> is the nil pointer, and a method that assigns through it changes the
  permissions its caller sees, though the receiver itself is passed by value. A parsed
  desktop entry (\<open>*ini.File\<close>) is the lookup from a section and a key to the value, the
  empty string where the key is absent.
\<close>

record AppImagePerms =
  Level :: int
  Files :: "string list"
  Devices :: "string list"
  Sockets :: "string list"
  Share :: "string list"

type_synonym ini_File = "string \<Rightarrow> string \<Rightarrow> string"

record AppImage =
  Desktop :: "ini_File option"
  Perms :: "AppImagePerms option"
  Path :: string
  dataDir :: string
  rootDir :: string
  tempDir :: string
  mountDir :: string
  runId :: string
  Name :: string
  Version :: string
  Offset :: int
  imageType :: int
  rmMountDir :: bool

definition empty_AppImage :: AppImage where
  "empty_AppImage =
     \<lparr>Desktop = None, Perms = None, Path = [], dataDir = [], rootDir = [], tempDir = [],
      mountDir = [], runId = [], Name = [], Version = [], Offset = 0, imageType = 0,
      rmMountDir = False\<rparr>"

text \<open>
  The package-level variables of \<open>aisap.go\<close> (the mount command \<open>mnt\<close> apart), with
  the initial values the declaration gives them.
\<close>

record globals =
  usern :: string
  homed :: string
  uid :: string
  g_dataDir :: string
  g_rootDir :: string
  g_tempDir :: string
  g_err :: "go_error option"

definition initial_globals :: globals where
  "initial_globals =
     \<lparr>usern = [], homed = [], uid = [], g_dataDir = [], g_rootDir = ''/'',
      g_tempDir = ''/tmp'', g_err = None\<rparr>"

text \<open>
  What the operating system tells the process: \<open>user.Current()\<close> (\<open>None\<close> when the
  lookup fails and the returned pointer is nil) and \<open>os.Getuid()\<close>.
\<close>

record os_User =
  Username :: string
  HomeDir :: string

record os_env =
  current_user :: "os_User option"
  getuid :: int


subsection \<open>Library functions on paths and numbers\<close>

text \<open>
  \<open>filepath.Clean\<close> on a Unix path: empty and \<open>.\<close> components vanish, \<open>..\<close> removes the
  component before it (at the root it vanishes, at the start of a relative path it
  stays), and the empty result is \<open>.\<close>. \<open>filepath.Join\<close> cleans the elements joined by
  slashes, from the first non-empty one on.
\<close>

definition clean_step :: "bool \<Rightarrow> string list \<Rightarrow> string \<Rightarrow> string list" where
  "clean_step rooted out part =
     (if part = [] \<or> part = ''.'' then out
      else if part = ''..'' then
        (if out \<noteq> [] \<and> last out \<noteq> ''..'' then butlast out
         else if rooted then out
         else out @ [''..''])
      else out @ [part])"

fun strings_Join :: "string list \<Rightarrow> string" where
  "strings_Join [] = []"
| "strings_Join [x] = x"
| "strings_Join (x # y # r) = x @ ''/'' @ strings_Join (y # r)"

definition filepath_Clean :: "string \<Rightarrow> string" where
  "filepath_Clean path =
     (if path = [] then ''.''
      else
        let rooted = (hd path = CHR ''/'');
            body = strings_Join (foldl (clean_step rooted) [] (strings_Split path (CHR ''/'')))
        in if rooted then CHR ''/'' # body
           else if body = [] then ''.''
           else body)"

definition filepath_Join :: "string list \<Rightarrow> string" where
  "filepath_Join elem =
     (let rest = dropWhile (\<lambda>e. e = []) elem
      in if rest = [] then [] else filepath_Clean (strings_Join rest))"

text \<open>\<open>strconv.Itoa\<close>: the decimal digits, after a minus sign for a negative number.\<close>

fun nat_digits :: "nat \<Rightarrow> string" where
  "nat_digits n =
     (if n < 10 then [char_of (48 + n)]
      else nat_digits (n div 10) @ [char_of (48 + n mod 10)])"

definition strconv_Itoa :: "int \<Rightarrow> string" where
  "strconv_Itoa i = (if i < 0 then CHR ''-'' # nat_digits (nat (- i)) else nat_digits (nat i))"


subsection \<open>The grant lists\<close>

text \<open>
  The loop of \<open>AddFiles\<close> over the entries: \<open>s[i][len(s[i])-3:]\<close> panics on an entry
  shorter than three bytes, otherwise the entry gets \<open>:ro\<close> appended unless it ends in
  \<open>:ro\<close> or \<open>:rw\<close>. \<open>AddFiles\<close> returns nothing; its effects are the rewritten slice of
  the caller and the new \<open>Files\<close> list behind the \<open>Perms\<close> pointer, both returned here.
\<close>

fun add_ro :: "string list \<Rightarrow> go_panic + string list" where
  "add_ro [] = Inr []"
| "add_ro (e # es) =
     (if length e < 3 then Inl SliceBoundsOutOfRange
      else
        let ex = drop (length e - 3) e;
            e' = (if length (strings_Split e (CHR '':'')) < 2 \<or>
                     (ex \<noteq> '':ro'' \<and> ex \<noteq> '':rw'')
                  then e @ '':ro'' else e)
        in (case add_ro es of
              Inl p \<Rightarrow> Inl p
            | Inr es' \<Rightarrow> Inr (e' # es')))"

definition AddFiles :: "AppImage \<Rightarrow> string list \<Rightarrow> go_panic + (string list \<times> AppImage)" where
  "AddFiles ai s =
     (case add_ro s of
        Inl p \<Rightarrow> Inl p
      | Inr s' \<Rightarrow>
          (case Perms ai of
             None \<Rightarrow> Inl NilPointerDereference
           | Some perms \<Rightarrow> Inr (s', ai\<lparr>Perms := Some (perms\<lparr>Files := Files perms @ s'\<rparr>)\<rparr>)))"


subsection \<open>The setters\<close>




text \<open>
  \<open>updateHome\<close> returns its error beside the package variables it leaves behind;
  \<open>usr.Username\<close> on the nil user of a failed lookup is a panic.
\<close>

definition updateHome :: "os_env \<Rightarrow> int \<Rightarrow> globals \<Rightarrow> go_panic + (go_error option \<times> globals)" where
  "updateHome env l g =
     (if l = 1 \<or> l = 0 then
        (case current_user env of
           None \<Rightarrow> Inl NilPointerDereference
         | Some usr \<Rightarrow>
             (let g1 = g\<lparr>usern := Username usr\<rparr>
              in Inr (None, g1\<lparr>homed := filepath_Join [''/home'', usern g1],
                                uid := strconv_Itoa (getuid env)\<rparr>)))
      else if l > 1 \<and> l \<le> 3 then
        (let g1 = g\<lparr>usern := ''ai''\<rparr>
         in Inr (None, g1\<lparr>homed := filepath_Join [''/home'', usern g1],
                           uid := strconv_Itoa (getuid env)\<rparr>))
      else Inr (Some LevelOutOfRange, g))"

definition SetLevel ::
  "os_env \<Rightarrow> AppImage \<Rightarrow> int \<Rightarrow> globals \<Rightarrow> go_panic + (go_error option \<times> globals \<times> AppImage)" where
  "SetLevel env ai l g =
     (case updateHome env l g of
        Inl p \<Rightarrow> Inl p
      | Inr (e, g1) \<Rightarrow>
          (let g2 = g1\<lparr>g_err := e\<rparr>
           in case e of
                Some err \<Rightarrow> Inr (Some err, g2, ai)
              | None \<Rightarrow>
                  (case Perms ai of
                     None \<Rightarrow> Inl NilPointerDereference
                   | Some perms \<Rightarrow> Inr (None, g2, ai\<lparr>Perms := Some (perms\<lparr>Level := l\<rparr>)\<rparr>))))"


subsection \<open>Opening an AppImage\<close>

text \<open>
  \<open>NewAppImage\<close> works on the world outside the process: the directories that exist,
  the files, and the collaborators whose code is not part of this file. Each
  collaborator is a field of the world that says what it answers: \<open>helpers.RandString\<close>,
  the failure of a directory creation, \<open>Mount\<close>, \<open>filepath.Glob\<close>, \<open>ioutil.ReadFile\<close>,
  \<open>ini.Load\<close> (\<open>None\<close> for the nil file of a failed load) and \<open>getPermsFromAppImage\<close>
  (\<open>None\<close> for a nil pointer). \<open>Mount\<close> attaches the image and is taken to create and
  remove no directory.
\<close>

record world =
  dirs :: "string set"
  files :: filesystem
  RandString :: string
  mkdir_fails :: "string \<Rightarrow> bool"
  Mount :: "string \<Rightarrow> string \<Rightarrow> int \<Rightarrow> go_error option"
  Glob :: "string \<Rightarrow> go_error + string list"
  ReadFile :: "string \<Rightarrow> go_error + string"
  ini_Load :: "string \<Rightarrow> ini_File option"
  getPermsFromAppImage :: "AppImage \<Rightarrow> AppImagePerms option"

text \<open>
  Modelled from the spec: \<open>helpers.MakeTemp\<close> is not among the sources. The spec has the
  open create a scratch directory and a mount directory named with the run identifier;
  \<open>MakeTemp dir name\<close> creates the directory \<open>name\<close> inside \<open>dir\<close> and returns its path
  beside the error of the creation.
\<close>

definition MakeTemp :: "world \<Rightarrow> string \<Rightarrow> string \<Rightarrow> (string \<times> go_error option) \<times> world" where
  "MakeTemp w dir name =
     (let d = filepath_Join [dir, name]
      in if mkdir_fails w d then ((d, Some MkdirError), w)
         else ((d, None), w\<lparr>dirs := insert d (dirs w)\<rparr>))"

text \<open>
  The second half of \<open>NewAppImage\<close>, from \<open>ioutil.ReadFile(fp[0])\<close> on. The error of
  \<open>ReadFile\<close> is the one the function returns at its end; the errors of \<open>ini.Load\<close>,
  \<open>getPermsFromAppImage\<close> and \<open>SetLevel\<close> are dropped, and a nil entry or nil
  permissions panic at their first use.
\<close>

definition load_entry ::
  "os_env \<Rightarrow> AppImage \<Rightarrow> string \<Rightarrow> world \<Rightarrow> globals \<Rightarrow>
   (go_panic + (go_error + AppImage)) \<times> world \<times> globals" where
  "load_entry env ai path w g =
     (let e = (case ReadFile w path of Inl _ \<Rightarrow> [] | Inr content \<Rightarrow> content);
          err = (case ReadFile w path of Inl er \<Rightarrow> Some er | Inr _ \<Rightarrow> None)
      in case ini_Load w e of
           None \<Rightarrow> (Inl NilPointerDereference, w, g)
         | Some entry \<Rightarrow>
             (let ai1 = ai\<lparr>Desktop := Some entry,
                           Name := entry ''Desktop Entry'' ''Name'',
                           Version := entry ''Desktop Entry'' ''X-AppImage-Version''\<rparr>;
                  ai2 = (if Version ai1 = [] then ai1\<lparr>Version := ''1.0''\<rparr> else ai1);
                  ai3 = ai2\<lparr>Perms := getPermsFromAppImage w ai2\<rparr>
              in case Perms ai3 of
                   None \<Rightarrow> (Inl NilPointerDereference, w, g)
                 | Some perms \<Rightarrow>
                     (case SetLevel env ai3 (Level perms) g of
                        Inl p \<Rightarrow> (Inl p, w, g)
                      | Inr (_, g', ai4) \<Rightarrow>
                          (case err of
                             None \<Rightarrow> (Inr (Inr ai4), w, g')
                           | Some er \<Rightarrow> (Inr (Inl er), w, g')))))"

definition NewAppImage ::
  "(string \<Rightarrow> go_error + elf_File) \<Rightarrow> os_env \<Rightarrow> string \<Rightarrow> world \<Rightarrow> globals \<Rightarrow>
   (go_panic + (go_error + AppImage)) \<times> world \<times> globals" where
  "NewAppImage nf env src w g =
     (let ai0 = empty_AppImage\<lparr>Path := src, runId := RandString w\<rparr>;
          ((td, e1), w1) = MakeTemp w ''/tmp'' (''.aisapTemp_'' @ runId ai0)
      in case e1 of
           Some err \<Rightarrow> (Inr (Inl err), w1, g)
         | None \<Rightarrow>
             (let ai1 = ai0\<lparr>tempDir := td\<rparr>;
                  ((md, e2), w2) = MakeTemp w1 (tempDir ai1) (''.mount_'' @ runId ai1);
                  ai2 = ai1\<lparr>mountDir := md, rmMountDir := True\<rparr>
              in case GetOffset nf (files w2) src of
                   Inl err \<Rightarrow> (Inr (Inl err), w2, g)
                 | Inr off \<Rightarrow>
                     (case Mount w2 src (mountDir ai2) off of
                        Some err \<Rightarrow> (Inr (Inl err), w2, g)
                      | None \<Rightarrow>
                          (case Glob w2 (mountDir ai2 @ ''/*.desktop'') of
                             Inl err \<Rightarrow> (Inr (Inl err), w2, g)
                           | Inr fp \<Rightarrow>
                               if fp = [] then (Inl IndexOutOfRange, w2, g)
                               else load_entry env (ai2\<lparr>Offset := off\<rparr>) (fp ! 0) w2 g))))"


subsection \<open>The accessors, and several containers in one process\<close>


definition MountDir :: "AppImage \<Rightarrow> string" where
  "MountDir ai = mountDir ai"

definition RunId :: "AppImage \<Rightarrow> string" where
  "RunId ai = runId ai"






section \<open>Vocabulary of the properties and example inputs\<close>

text \<open>The form \<open>AddFiles\<close> is to give an entry: the entry itself when it ends in \<open>:ro\<close> or \<open>:rw\<close>, otherwise the entry followed by \<open>:ro\<close>.\<close>

definition file_entry :: "string \<Rightarrow> string" where
  "file_entry e =
     (if drop (length e - 3) e = '':ro'' \<or> drop (length e - 3) e = '':rw'' then e
      else e @ '':ro'')"

definition no_grants :: AppImagePerms where
  "no_grants = \<lparr>Level = 1, Files = [], Devices = [], Sockets = [], Share = []\<rparr>"

definition fresh_AppImage :: AppImage where
  "fresh_AppImage = empty_AppImage\<lparr>Perms := Some no_grants\<rparr>"

text \<open>A shappimage of three lines, the last of which gives the offset 4096.\<close>

definition shimg_file :: string where
  "shimg_file = shimg_magic @ ''\<newline>sfs_offset=4096\<newline>''"

text \<open>
  A world in which every directory can be created, \<open>app.shImg\<close> holds the shappimage
  above, the mount succeeds and the mounted image has no \<open>.desktop\<close> file.
\<close>

definition world_without_desktop :: world where
  "world_without_desktop =
     \<lparr>dirs = {''/tmp''},
      files = (\<lambda>p. if p = ''app.shImg'' then Some shimg_file else None),
      RandString = ''run0run0'',
      mkdir_fails = (\<lambda>_. False),
      Mount = (\<lambda>_ _ _. None),
      Glob = (\<lambda>_. Inr []),
      ReadFile = (\<lambda>_. Inl ReadFileError),
      ini_Load = (\<lambda>_. None),
      getPermsFromAppImage = (\<lambda>_. None)\<rparr>"

text \<open>
  The header of a 64-bit little-endian ELF file with the type-2 marker at offset 8,
  \<open>e_shoff = 4096\<close>, \<open>e_shentsize = 64\<close> and \<open>e_shnum = 1024\<close>; and what
  \<open>std.elf.Header.read\<close> returns for it.
\<close>

definition elf64_1024_sections :: string where
  "elf64_1024_sections =
     [
      CHR 0x7F, CHR 0x45, CHR 0x4C, CHR 0x46, CHR 0x02, CHR 0x01, CHR 0x01, CHR 0x00,
      CHR 0x41, CHR 0x49, CHR 0x02, CHR 0x00, CHR 0x00, CHR 0x00, CHR 0x00, CHR 0x00,
      CHR 0x02, CHR 0x00, CHR 0x3E, CHR 0x00, CHR 0x01, CHR 0x00, CHR 0x00, CHR 0x00,
      CHR 0x00, CHR 0x00, CHR 0x00, CHR 0x00, CHR 0x00, CHR 0x00, CHR 0x00, CHR 0x00,
      CHR 0x40, CHR 0x00, CHR 0x00, CHR 0x00, CHR 0x00, CHR 0x00, CHR 0x00, CHR 0x00,
      CHR 0x00, CHR 0x10, CHR 0x00, CHR 0x00, CHR 0x00, CHR 0x00, CHR 0x00, CHR 0x00,
      CHR 0x00, CHR 0x00, CHR 0x00, CHR 0x00, CHR 0x40, CHR 0x00, CHR 0x38, CHR 0x00,
      CHR 0x00, CHR 0x00, CHR 0x40, CHR 0x00, CHR 0x00, CHR 0x04, CHR 0x00, CHR 0x00]"

definition header_1024_sections :: elf_Header where
  "header_1024_sections = \<lparr>shoff = 4096, shentsize = 64, shnum = 1024\<rparr>"

definition read_1024_sections :: "string \<Rightarrow> zig_failure + elf_Header" where
  "read_1024_sections file = Inr header_1024_sections"

text \<open>The same header with the type-1 marker, and one with no marker at offset 8.\<close>

definition elf64_type1 :: string where
  "elf64_type1 = (take 10 elf64_1024_sections) @ [CHR 0x01] @ drop 11 elf64_1024_sections"

definition elf64_unmarked :: string where
  "elf64_unmarked = (take 8 elf64_1024_sections) @ [CHR 0x00, CHR 0x00, CHR 0x00] @ drop 11 elf64_1024_sections"

text \<open>
  A whole file for that header: the 64 bytes followed by zero bytes up to the end of the
  section table at \<open>4096 + 64 * 1024 = 69632\<close>. It has no program headers, 1024 empty
  section headers and no section-name table (\<open>e_shstrndx = 0\<close>), so the library's parse
  ends after reading the table.
\<close>

definition elf64_1024_padded :: string where
  "elf64_1024_padded = elf64_1024_sections @ replicate 69568 (CHR 0x00)"

text \<open>The same header again with the class byte 0 (\<open>ELFCLASSNONE\<close>).\<close>

definition elf64_class_none :: string where
  "elf64_class_none = (take 4 elf64_1024_sections) @ [CHR 0x00] @ drop 5 elf64_1024_sections"

text \<open>
  Two accounts: one whose home is \<open>/home/alice\<close>, and root, whose home is \<open>/root\<close>.
\<close>

definition alice :: os_User where
  "alice = \<lparr>Username = ''alice'', HomeDir = ''/home/alice''\<rparr>"

definition env_alice :: os_env where
  "env_alice = \<lparr>current_user = Some alice, getuid = 1000\<rparr>"

definition root_user :: os_User where
  "root_user = \<lparr>Username = ''root'', HomeDir = ''/root''\<rparr>"

definition env_root :: os_env where
  "env_root = \<lparr>current_user = Some root_user, getuid = 0\<rparr>"




text \<open>The world of \<open>world_without_desktop\<close>, but with no file at all.\<close>

definition world_missing_file :: world where
  "world_missing_file = world_without_desktop\<lparr>files := (\<lambda>p. None)\<rparr>"

text \<open>The paths of the scratch directory and of the mount directory of an open.\<close>

definition scratch_dir :: "world \<Rightarrow> string" where
  "scratch_dir w = filepath_Join [''/tmp'', ''.aisapTemp_'' @ RandString w]"

definition mount_dir :: "world \<Rightarrow> string" where
  "mount_dir w = filepath_Join [scratch_dir w, ''.mount_'' @ RandString w]"

text \<open>The world of \<open>world_without_desktop\<close>, but with a mount that fails.\<close>

definition world_mount_fails :: world where
  "world_mount_fails = world_without_desktop\<lparr>Mount := (\<lambda>_ _ _. Some MountError)\<rparr>"

text \<open>The world after \<open>NewAppImage\<close>, whatever it returns.\<close>

definition after_mkdirs :: "world \<Rightarrow> world" where
  "after_mkdirs w =
     (if mkdir_fails w (scratch_dir w) then w
      else if mkdir_fails w (mount_dir w) then w\<lparr>dirs := insert (scratch_dir w) (dirs w)\<rparr>
      else w\<lparr>dirs := insert (mount_dir w) (insert (scratch_dir w) (dirs w))\<rparr>)"

text \<open>
  The lines the two scans stop at, and what they make of such a line. For Go: a line
  that starts with \<open>sfs_offset=\<close> and has no \<open>=\<close> after that; the value is the rest
  of the line with every quote character deleted. For Zig: a line that starts with
  \<open>sfs_offset=\<close>; the value is the second run of bytes between \<open>=\<close> signs.
\<close>

definition sfs_prefix :: string where
  "sfs_prefix = ''sfs_offset=''"

definition sfs_line_go :: "string \<Rightarrow> bool" where
  "sfs_line_go text = (take 11 text = sfs_prefix \<and> CHR ''='' \<notin> set (drop 11 text))"

definition unquote :: "string \<Rightarrow> string" where
  "unquote s = filter (\<lambda>c. c \<noteq> CHR 0x27 \<and> c \<noteq> CHR 0x22) s"

definition sfs_line_zig :: "string \<Rightarrow> bool" where
  "sfs_line_zig text = (take 11 text = sfs_prefix)"

definition shimg_value :: "string \<Rightarrow> zig_failure + 64 word" where
  "shimg_value text =
     (case tokenize text (CHR ''='') of
        _ # tok # _ \<Rightarrow> parseInt tok
      | _ \<Rightarrow> Inl NotShimg)"

text \<open>Shappimages whose offset line is quoted, and written in hexadecimal.\<close>

definition quoted_line :: string where
  "quoted_line = ''sfs_offset='' @ [CHR 0x27] @ ''4096'' @ [CHR 0x27]"

definition shimg_quoted :: string where
  "shimg_quoted = shimg_magic @ [CHR 0x0A] @ quoted_line @ [CHR 0x0A]"

definition shimg_hex :: string where
  "shimg_hex = shimg_magic @ ''\<newline>sfs_offset=0x1000\<newline>''"

text \<open>The value of a hexadecimal digit, and of a string of them.\<close>

definition hex_val :: "char \<Rightarrow> nat" where
  "hex_val c = (case charToDigit c 16 of Inl _ \<Rightarrow> 0 | Inr d \<Rightarrow> d)"

definition is_hex :: "char \<Rightarrow> bool" where
  "is_hex c = (case charToDigit c 16 of Inl _ \<Rightarrow> False | Inr _ \<Rightarrow> True)"

definition hex_value :: "string \<Rightarrow> nat" where
  "hex_value s = foldl (\<lambda>n c. n * 16 + hex_val c) 0 s"

text \<open>
  A shappimage whose offset line comes after 512 empty lines: it is line 515 of the file.
\<close>

definition shimg_late :: string where
  "shimg_late = shimg_magic @ [CHR 0x0A] @ replicate 512 (CHR 0x0A) @ ''sfs_offset=4096\<newline>''"


section \<open>Splitting and scanning\<close>

lemma split_from_length:
  "length (split_from part s sep) = Suc (length (filter (\<lambda>c. c = sep) s))"
  by (induction s arbitrary: part) auto

lemma strings_Split_length:
  "length (strings_Split s sep) = Suc (length (filter (\<lambda>c. c = sep) s))"
  by (simp add: strings_Split_def split_from_length)

lemma shimg_file_lines:
  "scan_chunks [] shimg_file = [''#!/bin/sh'', ''#.shImg.#'', ''sfs_offset=4096'']"
  by (simp add: shimg_file_def shimg_magic_def)

lemma shimg_file_Scanner_lines:
  "Scanner_lines shimg_file = [''#!/bin/sh'', ''#.shImg.#'', ''sfs_offset=4096'']"
  by (simp add: Scanner_lines_def shimg_file_lines MaxScanTokenSize_def dropCR_def)

lemma Atoi_4096: "strconv_Atoi ''4096'' = Inr 4096"
  by (simp add: strconv_Atoi_def is_digit_def dec_value_def digit_val_def Let_def)

lemma split_sfs_offset_4096:
  "strings_Split ''sfs_offset=4096'' (CHR ''='') = [''sfs_offset'', ''4096'']"
  by (simp add: strings_Split_def)

lemma shimg_file_type:
  "GetAppImageType (\<lambda>p. if p = ''app.shImg'' then Some shimg_file else None) ''app.shImg'' = Inr (- 2)"
  by (simp add: GetAppImageType_def HasMagic_def shimg_file_def shimg_magic_def elf_magic_def)

lemma shimg_file_size:
  "getShappImageSize (\<lambda>p. if p = ''app.shImg'' then Some shimg_file else None) ''app.shImg'' = Inr 4096"
  by (simp add: getShappImageSize_def shimg_file_Scanner_lines split_sfs_offset_4096
      strings_ReplaceAll_empty_def Atoi_4096)

lemma shimg_file_offset:
  "GetOffset nf (\<lambda>p. if p = ''app.shImg'' then Some shimg_file else None) ''app.shImg'' = Inr 4096"
  by (simp add: GetOffset_def shimg_file_type shimg_file_size)

lemma Join_tmp_scratch:
  "filepath_Join [''/tmp'', ''.aisapTemp_run0run0''] = ''/tmp/.aisapTemp_run0run0''"
  by (simp add: filepath_Join_def filepath_Clean_def clean_step_def strings_Split_def)

lemma Join_scratch_mount:
  "filepath_Join [''/tmp/.aisapTemp_run0run0'', ''.mount_run0run0'']
     = ''/tmp/.aisapTemp_run0run0/.mount_run0run0''"
  by (simp add: filepath_Join_def filepath_Clean_def clean_step_def strings_Split_def)


section \<open>The file grants\<close>

lemma add_ro_panics_iff:
  "(add_ro s = Inl SliceBoundsOutOfRange) = (\<exists>e \<in> set s. length e < 3)"
  by (induction s) (auto simp: Let_def split: sum.splits)

lemma add_ro_panic_kind: "add_ro s = Inl p \<Longrightarrow> p = SliceBoundsOutOfRange"
  by (induction s arbitrary: p) (auto simp: Let_def split: sum.splits if_splits)

lemma suffix_has_colon:
  assumes "drop (length e - 3) e = '':ro'' \<or> drop (length e - 3) e = '':rw''"
  shows "\<not> length (strings_Split e (CHR '':'')) < 2"
proof -
  from assms have "CHR '':'' \<in> set (drop (length e - 3) e)" by auto
  then have "CHR '':'' \<in> set e" by (rule in_set_dropD)
  then have "filter (\<lambda>c. c = CHR '':'') e \<noteq> []" by (auto simp: filter_empty_conv)
  then show ?thesis by (simp add: strings_Split_length)
qed

lemma add_ro_long: "\<forall>e \<in> set s. 3 \<le> length e \<Longrightarrow> add_ro s = Inr (map file_entry s)"
proof (induction s)
  case Nil
  then show ?case by simp
next
  case (Cons e es)
  then have IH: "add_ro es = Inr (map file_entry es)" and len: "3 \<le> length e" by auto
  show ?case
  proof (cases "drop (length e - 3) e = '':ro'' \<or> drop (length e - 3) e = '':rw''")
    case True
    with suffix_has_colon [OF True] IH len show ?thesis
      by (auto simp: Let_def file_entry_def)
  next
    case False
    with IH len show ?thesis by (auto simp: Let_def file_entry_def)
  qed
qed

text \<open>
  On entries of three bytes or more \<open>AddFiles\<close> does what the spec describes: each entry
  is brought into the form \<open>file_entry\<close> and the entries are appended to the grants in
  the order of the call, duplicates included.
\<close>

lemma AddFiles_long_entries:
  assumes "\<forall>e \<in> set s. 3 \<le> length e" and "Perms ai = Some perms"
  shows "AddFiles ai s =
           Inr (map file_entry s, ai\<lparr>Perms := Some (perms\<lparr>Files := Files perms @ map file_entry s\<rparr>)\<rparr>)"
  using assms by (simp add: AddFiles_def add_ro_long)

lemma AddFiles_example:
  "AddFiles fresh_AppImage [''/tmp/a'', ''/tmp/b:rw''] =
     Inr ([''/tmp/a:ro'', ''/tmp/b:rw''],
          fresh_AppImage\<lparr>Perms := Some (no_grants\<lparr>Files := [''/tmp/a:ro'', ''/tmp/b:rw'']\<rparr>)\<rparr>)"
  by (simp add: AddFiles_def fresh_AppImage_def no_grants_def strings_Split_def)

text \<open>
  C8. The claim has \<open>AddFiles\<close> append \<open>:ro\<close> to every entry without an explicit mode.
  The path \<open>/\<close> has no mode, and the call does not append \<open>/:ro\<close>: it panics in the
  slice expression that takes the last three bytes of the entry.
\<close>

theorem AddFiles_root_path_panics:
  "AddFiles fresh_AppImage [''/''] = Inl SliceBoundsOutOfRange"
  by (simp add: AddFiles_def)

text \<open>
  C10. \<open>AddFiles\<close> panics with a slice bound out of range exactly when some entry of
  its argument is shorter than three bytes: the entries before the first short one are
  rewritten, the short one stops the call before anything is appended to the grants.
\<close>

theorem AddFiles_panics_iff_short_entry:
  "(AddFiles ai s = Inl SliceBoundsOutOfRange) = (\<exists>e \<in> set s. length e < 3)"
proof (cases "add_ro s")
  case (Inl p)
  then have "p = SliceBoundsOutOfRange" by (rule add_ro_panic_kind)
  with Inl show ?thesis using add_ro_panics_iff [of s] by (simp add: AddFiles_def)
next
  case (Inr s')
  then have "\<not> (\<exists>e \<in> set s. length e < 3)" using add_ro_panics_iff [of s] by simp
  with Inr show ?thesis by (simp add: AddFiles_def split: option.splits)
qed

theorem AddFiles_panics_witness:
  "AddFiles fresh_AppImage [''/tmp/a'', ''~''] = Inl SliceBoundsOutOfRange"
  using AddFiles_panics_iff_short_entry [of fresh_AppImage "[''/tmp/a'', ''~'']"]
  by simp


section \<open>Opening an image without a desktop entry\<close>

lemma NewAppImage_empty_glob:
  assumes "MakeTemp w ''/tmp'' (''.aisapTemp_'' @ RandString w) = ((td, None), w1)"
    and "MakeTemp w1 td (''.mount_'' @ RandString w) = ((md, e2), w2)"
    and "GetOffset nf (files w2) src = Inr off"
    and "Mount w2 src md off = None"
    and "Glob w2 (md @ ''/*.desktop'') = Inr []"
  shows "NewAppImage nf env src w g = (Inl IndexOutOfRange, w2, g)"
  using assms by (simp add: NewAppImage_def empty_AppImage_def)

text \<open>
  C6. With no \<open>.desktop\<close> file in the mounted image, \<open>filepath.Glob\<close> returns the empty
  list without an error and \<open>fp[0]\<close> panics: \<open>NewAppImage\<close> returns no error. The Zig
  \<open>loadDesktopEntry\<close> on a root directory without such a file returns 0, as it does
  when the file is there: the flag \<open>found\<close> is never read.
\<close>

theorem NewAppImage_no_desktop_file:
  "fst (NewAppImage nf env ''app.shImg'' world_without_desktop g) = Inl IndexOutOfRange
   \<and> loadDesktopEntry [] buf = Inr (0, buf)
   \<and> loadDesktopEntry [(''AppRun'', Inr ''#!/bin/sh'')] buf = Inr (0, buf)"
proof -
  let ?w = world_without_desktop
  let ?td = "''/tmp/.aisapTemp_run0run0''"
  let ?md = "''/tmp/.aisapTemp_run0run0/.mount_run0run0''"
  let ?w1 = "?w\<lparr>dirs := insert ?td (dirs ?w)\<rparr>"
  let ?w2 = "?w1\<lparr>dirs := insert ?md (dirs ?w1)\<rparr>"
  have r: "RandString ?w = ''run0run0''" by (simp add: world_without_desktop_def)
  have m1: "MakeTemp ?w ''/tmp'' (''.aisapTemp_'' @ RandString ?w) = ((?td, None), ?w1)"
    unfolding r by (simp add: MakeTemp_def Let_def Join_tmp_scratch world_without_desktop_def)
  have m2: "MakeTemp ?w1 ?td (''.mount_'' @ RandString ?w) = ((?md, None), ?w2)"
    unfolding r by (simp add: MakeTemp_def Let_def Join_scratch_mount world_without_desktop_def)
  have off: "GetOffset nf (files ?w2) ''app.shImg'' = Inr 4096"
    by (simp add: world_without_desktop_def shimg_file_offset)
  have mnt: "Mount ?w2 ''app.shImg'' ?md 4096 = None"
    by (simp add: world_without_desktop_def)
  have glob: "Glob ?w2 (?md @ ''/*.desktop'') = Inr []"
    by (simp add: world_without_desktop_def)
  have "NewAppImage nf env ''app.shImg'' ?w g = (Inl IndexOutOfRange, ?w2, g)"
    by (rule NewAppImage_empty_glob [OF m1 m2 off mnt glob])
  moreover have "loadDesktopEntry [] buf = Inr (0, buf)"
    by (simp add: loadDesktopEntry_def)
  moreover have "loadDesktopEntry [(''AppRun'', Inr ''#!/bin/sh'')] buf = Inr (0, buf)"
    by (simp add: loadDesktopEntry_def path_extension_def)
  ultimately show ?thesis by simp
qed

section \<open>Format detection\<close>

lemma HasMagic_iff: "HasMagic f str off = (take (length str) (drop off f) = str)"
  by (auto simp: HasMagic_def Let_def)

lemma magic_lengths:
  "length elf_magic = 4" "length magic_AI1 = 3" "length magic_AI2 = 3" "length shimg_magic = 19"
  by (simp_all add: elf_magic_def magic_AI1_def magic_AI2_def shimg_magic_def)

lemma shimg_not_elf: "take 19 f = shimg_magic \<Longrightarrow> take 4 f \<noteq> elf_magic"
proof
  assume a: "take 19 f = shimg_magic" and b: "take 4 f = elf_magic"
  have "take 4 (take 19 f) = take 4 f" by simp
  with a b have "take 4 shimg_magic = elf_magic" by simp
  then show False by (simp add: shimg_magic_def elf_magic_def)
qed

lemma take3_split:
  "2 < length xs \<Longrightarrow> (take 3 xs = [a, b, c]) = (take 2 xs = [a, b] \<and> xs ! 2 = c)"
  by (cases xs; cases "tl xs"; cases "tl (tl xs)") (auto simp: numeral_3_eq_3 numeral_2_eq_2)

lemma of_char_eq_1: "(of_char c = (1::nat)) = (c = CHR 0x01)"
proof -
  have "of_char (CHR 0x01) = (1::nat)" by simp
  then show ?thesis by (metis of_char_eq_iff)
qed

lemma of_char_eq_2: "(of_char c = (2::nat)) = (c = CHR 0x02)"
proof -
  have "of_char (CHR 0x02) = (2::nat)" by simp
  then show ?thesis by (metis of_char_eq_iff)
qed

lemma take_shorter_neq: "length f < n \<Longrightarrow> length m = n \<Longrightarrow> take n f \<noteq> m"
  by auto

lemma GetAppImageType_cases:
  assumes "fs src = Some f"
  shows "GetAppImageType fs src =
           (if take 4 f = elf_magic then
              (if take 3 (drop 8 f) = magic_AI1 then Inr 1
               else if take 3 (drop 8 f) = magic_AI2 then Inr 2 else Inr 0)
            else if take 19 f = shimg_magic then Inr (- 2)
            else Inl UnableToGetType)"
  using assms by (simp add: GetAppImageType_def HasMagic_iff magic_lengths)

lemma getKind_cases:
  "getKind f =
     (if length f < 19 then Inl InvalidFormat
      else if take 19 f = shimg_magic then Inr shimg
      else if take 4 f = elf_magic then
        (if take 2 (drop 8 f) \<noteq> ''AI'' then Inl InvalidFromat
         else if of_char (f ! 10) = (1::nat) then Inr type1
         else if of_char (f ! 10) = (2::nat) then Inr type2
         else Inl UnknownAppImageVersion)
      else Inl InvalidFormat)"
  by (simp add: getKind_def Let_def min_def drop_take)

lemma marker_AI1:
  assumes "19 \<le> length f"
  shows "(take 3 (drop 8 f) = magic_AI1) =
           (take 2 (drop 8 f) = ''AI'' \<and> of_char (f ! 10) = (1::nat))"
proof -
  from assms have "2 < length (drop 8 f)" and "drop 8 f ! 2 = f ! 10" by simp_all
  with take3_split [of "drop 8 f" "CHR ''A''" "CHR ''I''" "CHR 0x01"]
  show ?thesis unfolding of_char_eq_1 magic_AI1_def by simp
qed

lemma marker_AI2:
  assumes "19 \<le> length f"
  shows "(take 3 (drop 8 f) = magic_AI2) =
           (take 2 (drop 8 f) = ''AI'' \<and> of_char (f ! 10) = (2::nat))"
proof -
  from assms have "2 < length (drop 8 f)" and "drop 8 f ! 2 = f ! 10" by simp_all
  with take3_split [of "drop 8 f" "CHR ''A''" "CHR ''I''" "CHR 0x02"]
  show ?thesis unfolding of_char_eq_2 magic_AI2_def by simp
qed

lemma getKind_by_marker:
  "getKind f =
     (if length f < 19 then Inl InvalidFormat
      else if take 19 f = shimg_magic then Inr shimg
      else if take 4 f = elf_magic then
        (if take 3 (drop 8 f) = magic_AI1 then Inr type1
         else if take 3 (drop 8 f) = magic_AI2 then Inr type2
         else if take 2 (drop 8 f) \<noteq> ''AI'' then Inl InvalidFromat
         else Inl UnknownAppImageVersion)
      else Inl InvalidFormat)"
proof (cases "length f < 19")
  case True
  then show ?thesis by (simp add: getKind_cases)
next
  case False
  then have len: "19 \<le> length f" by simp
  show ?thesis
    unfolding getKind_cases marker_AI1 [OF len] marker_AI2 [OF len] by auto
qed

text \<open>
  C4 (as amended). Detection is a total function with one outcome per input. In Go, an
  input with the ELF magic is type 1 or type 2 by the three marker bytes at offset 8 and
  an unknown ELF otherwise, whatever its length; the 19-byte marker makes a shappimage;
  anything else, and every input shorter than four bytes, is the error. In Zig, every
  input shorter than 19 bytes is \<open>InvalidFormat\<close>; the markers give \<open>shimg\<close>, \<open>type1\<close>
  and \<open>type2\<close>; an ELF with another marker or version is an error, not a kind; anything
  else is \<open>InvalidFormat\<close>.
\<close>

theorem detection_outcomes:
  assumes "fs src = Some f"
  shows
    "(take 4 f = elf_magic \<and> take 3 (drop 8 f) = magic_AI1 \<longrightarrow> GetAppImageType fs src = Inr 1)
   \<and> (take 4 f = elf_magic \<and> take 3 (drop 8 f) = magic_AI2 \<longrightarrow> GetAppImageType fs src = Inr 2)
   \<and> (take 4 f = elf_magic \<and> take 3 (drop 8 f) \<noteq> magic_AI1 \<and> take 3 (drop 8 f) \<noteq> magic_AI2
        \<longrightarrow> GetAppImageType fs src = Inr 0)
   \<and> (take 19 f = shimg_magic \<longrightarrow> GetAppImageType fs src = Inr (- 2))
   \<and> (take 4 f \<noteq> elf_magic \<and> take 19 f \<noteq> shimg_magic
        \<longrightarrow> GetAppImageType fs src = Inl UnableToGetType)
   \<and> (length f < 4 \<longrightarrow> GetAppImageType fs src = Inl UnableToGetType)
   \<and> (length f < 19 \<longrightarrow> getKind f = Inl InvalidFormat)
   \<and> (take 19 f = shimg_magic \<longrightarrow> getKind f = Inr shimg)
   \<and> (19 \<le> length f \<and> take 4 f = elf_magic \<and> take 3 (drop 8 f) = magic_AI1
        \<longrightarrow> getKind f = Inr type1)
   \<and> (19 \<le> length f \<and> take 4 f = elf_magic \<and> take 3 (drop 8 f) = magic_AI2
        \<longrightarrow> getKind f = Inr type2)
   \<and> (19 \<le> length f \<and> take 4 f = elf_magic \<and> take 3 (drop 8 f) \<noteq> magic_AI1
        \<and> take 3 (drop 8 f) \<noteq> magic_AI2 \<longrightarrow> (\<exists>e. getKind f = Inl e))
   \<and> (19 \<le> length f \<and> take 4 f \<noteq> elf_magic \<and> take 19 f \<noteq> shimg_magic
        \<longrightarrow> getKind f = Inl InvalidFormat)"
proof -
  have go: "GetAppImageType fs src =
           (if take 4 f = elf_magic then
              (if take 3 (drop 8 f) = magic_AI1 then Inr 1
               else if take 3 (drop 8 f) = magic_AI2 then Inr 2 else Inr 0)
            else if take 19 f = shimg_magic then Inr (- 2)
            else Inl UnableToGetType)"
    using assms by (rule GetAppImageType_cases)
  have ai: "magic_AI1 \<noteq> magic_AI2" by (simp add: magic_AI1_def magic_AI2_def)
  have short4: "length f < 4 \<Longrightarrow> take 4 f \<noteq> elf_magic \<and> take 19 f \<noteq> shimg_magic"
    using take_shorter_neq [of f 4 elf_magic] take_shorter_neq [of f 19 shimg_magic]
    by (simp add: magic_lengths)
  have long19: "take 19 f = shimg_magic \<Longrightarrow> \<not> length f < 19"
    using take_shorter_neq [of f 19 shimg_magic] by (auto simp: magic_lengths)
  have g1: "take 4 f = elf_magic \<and> take 3 (drop 8 f) = magic_AI1 \<longrightarrow> GetAppImageType fs src = Inr 1"
    by (simp add: go)
  have g2: "take 4 f = elf_magic \<and> take 3 (drop 8 f) = magic_AI2 \<longrightarrow> GetAppImageType fs src = Inr 2"
    using ai by (auto simp: go)
  have g3: "take 4 f = elf_magic \<and> take 3 (drop 8 f) \<noteq> magic_AI1 \<and> take 3 (drop 8 f) \<noteq> magic_AI2
        \<longrightarrow> GetAppImageType fs src = Inr 0"
    by (simp add: go)
  have g4: "take 19 f = shimg_magic \<longrightarrow> GetAppImageType fs src = Inr (- 2)"
    using shimg_not_elf [of f] by (simp add: go)
  have g5: "take 4 f \<noteq> elf_magic \<and> take 19 f \<noteq> shimg_magic
        \<longrightarrow> GetAppImageType fs src = Inl UnableToGetType"
    by (simp add: go)
  have g6: "length f < 4 \<longrightarrow> GetAppImageType fs src = Inl UnableToGetType"
    using short4 by (simp add: go)
  have z1: "length f < 19 \<longrightarrow> getKind f = Inl InvalidFormat"
    by (simp add: getKind_by_marker)
  have z2: "take 19 f = shimg_magic \<longrightarrow> getKind f = Inr shimg"
    using long19 by (simp add: getKind_by_marker)
  have z3: "19 \<le> length f \<and> take 4 f = elf_magic \<and> take 3 (drop 8 f) = magic_AI1
        \<longrightarrow> getKind f = Inr type1"
    using shimg_not_elf [of f] by (auto simp: getKind_by_marker)
  have z4: "19 \<le> length f \<and> take 4 f = elf_magic \<and> take 3 (drop 8 f) = magic_AI2
        \<longrightarrow> getKind f = Inr type2"
    using shimg_not_elf [of f] ai by (auto simp: getKind_by_marker)
  have z5: "19 \<le> length f \<and> take 4 f = elf_magic \<and> take 3 (drop 8 f) \<noteq> magic_AI1
        \<and> take 3 (drop 8 f) \<noteq> magic_AI2 \<longrightarrow> (\<exists>e. getKind f = Inl e)"
    using shimg_not_elf [of f] by (auto simp: getKind_by_marker)
  have z6: "19 \<le> length f \<and> take 4 f \<noteq> elf_magic \<and> take 19 f \<noteq> shimg_magic
        \<longrightarrow> getKind f = Inl InvalidFormat"
    by (simp add: getKind_by_marker)
  from g1 g2 g3 g4 g5 g6 z1 z2 z3 z4 z5 z6 show ?thesis by blast
qed

section \<open>The ELF offset\<close>

lemma shift_range:
  fixes x a :: int
  assumes "- a \<le> x" and "x < a"
  shows "0 \<le> x + a" and "x + a < 2 * a"
  using assms by arith+

lemma go_int_id:
  assumes "- (2 ^ 63) \<le> x" and "x < 2 ^ 63"
  shows "go_int x = x"
proof -
  have "sint (word_of_int x :: 64 word)
          = (x + 2 ^ (LENGTH(64) - 1)) mod 2 ^ LENGTH(64) - 2 ^ (LENGTH(64) - 1)"
    by (rule int_word_sint)
  then have eq: "go_int x = (x + 2 ^ 63) mod 2 ^ 64 - 2 ^ 63"
    unfolding go_int_def by simp
  have p: "(2::int) * 2 ^ 63 = 2 ^ 64" by simp
  from shift_range [OF assms] have "0 \<le> x + 2 ^ 63" and "x + 2 ^ 63 < 2 ^ 64"
    unfolding p by this+
  then have "(x + 2 ^ 63) mod 2 ^ 64 = x + 2 ^ 63" by (rule mod_pos_pos_trivial)
  with eq show ?thesis by simp
qed

lemma sint_small:
  assumes "unat (w :: 64 word) < 2 ^ 63"
  shows "sint w = int (unat w)"
proof -
  have "sint w = go_int (uint w)" unfolding go_int_def by simp
  moreover from assms have "int (unat w) < int (2 ^ 63)" by (simp only: of_nat_less_iff)
  then have "uint w < 2 ^ 63" by (simp only: uint_nat of_nat_power of_nat_numeral)
  moreover have "- (2 ^ 63) \<le> (0::int)" by (simp only: neg_le_0_iff_le zero_le_power zero_le_numeral)
  then have "- (2 ^ 63) \<le> uint w" by (rule order_trans) simp
  ultimately show ?thesis using go_int_id [of "uint w"] by (simp only: uint_nat)
qed

lemma go_int_nat:
  assumes "n < 2 ^ 63"
  shows "go_int (int n) = int n"
proof -
  from assms have "int n < int (2 ^ 63)" by (simp only: of_nat_less_iff)
  then have "int n < 2 ^ 63" by (simp only: of_nat_power of_nat_numeral)
  moreover have "- (2 ^ 63) \<le> (0::int)" by (simp only: neg_le_0_iff_le zero_le_power zero_le_numeral)
  then have "- (2 ^ 63) \<le> int n" by (rule order_trans) simp
  ultimately show ?thesis by (rule go_int_id [rotated])
qed

lemma sum_less_parts:
  fixes a b c :: nat
  assumes "a + b < c"
  shows "a < c" and "b < c"
  using assms by arith+

lemma ucast_16_64: "unat (ucast (p :: 16 word) :: 64 word) = unat p"
  by transfer simp

lemma offset_sum_exact:
  fixes off :: "64 word" and s n :: "16 word"
  assumes "unat off + unat s * unat n < 2 ^ 63"
  shows "go_int (sint off + go_int (uint s * uint n)) = int (unat off + unat s * unat n)"
proof -
  from assms have o: "unat off < 2 ^ 63" and p: "unat s * unat n < 2 ^ 63"
    by (rule sum_less_parts)+
  have e1: "go_int (uint s * uint n) = int (unat s * unat n)"
    using go_int_nat [OF p] by (simp only: uint_nat of_nat_mult)
  have e2: "sint off = int (unat off)" by (rule sint_small [OF o])
  have "sint off + go_int (uint s * uint n) = int (unat off + unat s * unat n)"
    by (simp only: e1 e2 of_nat_add)
  then show ?thesis using go_int_nat [OF assms] by (simp only:)
qed

lemma getElfSize_class64:
  assumes "fs src = Some f" and "nf f = Inr e" and "Class e = ELFCLASS64"
    and "binary_Read_Header64 (ByteOrder e) f = Inr hdr"
  shows "getElfSize nf fs src =
           Inr (go_int (sint (Shoff hdr) + go_int (uint (Shentsize hdr) * uint (Shnum hdr))))"
  using assms by (simp add: getElfSize_def Let_def)

lemma getElfSize_class32:
  assumes "fs src = Some f" and "nf f = Inr e" and "Class e = ELFCLASS32"
    and "binary_Read_Header32 (ByteOrder e) f = Inr hdr"
  shows "getElfSize nf fs src =
           Inr (go_int (uint (Shoff32 hdr) + go_int (uint (Shentsize32 hdr) * uint (Shnum32 hdr))))"
  using assms by (simp add: getElfSize_def Let_def)

text \<open>
  The Go function on a 64-bit type-2 file that \<open>elf.NewFile\<close> accepts: the offset is
  \<open>e_shoff + e_shentsize * e_shnum\<close> exactly, whenever that sum is a file offset (below
  \<open>2^63\<close>, as every offset of a file that holds its section table is).
\<close>

lemma GetOffset_type2_elf64:
  assumes "fs src = Some f" and "GetAppImageType fs src = Inr 2"
    and "nf f = Inr e" and "Class e = ELFCLASS64"
    and "binary_Read_Header64 (ByteOrder e) f = Inr hdr"
    and "unat (Shoff hdr) + unat (Shentsize hdr) * unat (Shnum hdr) < 2 ^ 63"
  shows "GetOffset nf fs src =
           Inr (int (unat (Shoff hdr) + unat (Shentsize hdr) * unat (Shnum hdr)))"
proof -
  from assms(2) have "GetOffset nf fs src = getElfSize nf fs src"
    by (simp add: GetOffset_def)
  moreover from assms(1,3,4,5)
  have "getElfSize nf fs src =
          Inr (go_int (sint (Shoff hdr) + go_int (uint (Shentsize hdr) * uint (Shnum hdr))))"
    by (rule getElfSize_class64)
  ultimately show ?thesis using offset_sum_exact [OF assms(6)] by simp
qed

text \<open>The Zig function agrees as long as neither of its two checked operations overflows.\<close>

lemma getOffsetFromElf_exact:
  assumes "read file = Inr header"
    and "unat (shentsize header) * unat (shnum header) < 2 ^ 16"
    and "unat (shoff header) + unat (shentsize header) * unat (shnum header) < 2 ^ 64"
  shows "\<exists>w. getOffsetFromElf read file = Inr w
           \<and> unat w = unat (shoff header) + unat (shentsize header) * unat (shnum header)"
proof -
  let ?p = "shentsize header * shnum header"
  have l16: "LENGTH(16) = 16" and l64: "LENGTH(64) = 64" by simp_all
  from assms(2) have "unat (shentsize header) * unat (shnum header) < 2 ^ LENGTH(16)"
    by (simp only: l16)
  then have p: "unat ?p = unat (shentsize header) * unat (shnum header)"
    by (simp only: unat_mult_lem)
  have u: "unat (ucast ?p :: 64 word) = unat ?p"
    by (rule ucast_16_64)
  from assms(3) have "unat (shoff header) + unat (ucast ?p :: 64 word) < 2 ^ LENGTH(64)"
    by (simp only: u p l64)
  then have s: "unat (shoff header + ucast ?p) = unat (shoff header) + unat (ucast ?p :: 64 word)"
    by (simp only: unat_add_lem)
  from assms(2) have n1: "\<not> 2 ^ 16 \<le> unat (shentsize header) * unat (shnum header)"
    by (simp only: not_le)
  from assms(3) have n2: "\<not> 2 ^ 64 \<le> unat (shoff header) + unat ?p"
    by (simp only: not_le p)
  have "getOffsetFromElf read file = Inr (shoff header + ucast ?p)"
    by (simp only: getOffsetFromElf_def assms(1) sum.case n1 n2 if_False Let_def)
  moreover have "unat (shoff header + ucast ?p)
      = unat (shoff header) + unat (shentsize header) * unat (shnum header)"
    by (simp only: s u p)
  ultimately show ?thesis by blast
qed

lemma elf64_1024_len: "length elf64_1024_sections = 64"
  by (simp add: elf64_1024_sections_def)

lemma elf64_1024_ident:
  "take 4 elf64_1024_sections = elf_magic"
  "take 3 (drop 8 elf64_1024_sections) = magic_AI2"
  "elf64_1024_sections ! 4 = CHR 0x02"
  "elf64_1024_sections ! 5 = CHR 0x01"
  "elf64_1024_sections ! 6 = CHR 0x01"
  by (simp_all add: elf64_1024_sections_def elf_magic_def magic_AI2_def)

lemma elf64_1024_fields:
  "field_at LittleEndian elf64_1024_sections 40 8 = 4096"
  "field_at LittleEndian elf64_1024_sections 58 2 = 64"
  "field_at LittleEndian elf64_1024_sections 60 2 = 1024"
  by (simp_all add: elf64_1024_sections_def field_at_def decode_uint_def)

lemma elf64_1024_tables:
  "field_at LittleEndian elf64_1024_sections 32 8 = 64"
  "field_at LittleEndian elf64_1024_sections 54 2 = 56"
  "field_at LittleEndian elf64_1024_sections 56 2 = 0"
  "field_at LittleEndian elf64_1024_sections 62 2 = 0"
  by (simp_all add: elf64_1024_sections_def field_at_def decode_uint_def)

text \<open>
  The header alone is no ELF file for the parser: its section table would lie beyond
  the end of the 64 bytes.
\<close>

lemma elf64_1024_header_only: "\<not> tables_in_file elf64_1024_sections"
  by (simp add: tables_in_file_def header_tables_def elf64_1024_ident elf64_1024_fields
      elf64_1024_tables elf64_1024_len)

text \<open>The file padded to the end of its section table is parsed.\<close>

lemma field_at_prefix:
  "off + w \<le> length xs \<Longrightarrow> field_at order (xs @ ys) off w = field_at order xs off w"
  by (simp add: field_at_def)

lemma elf64_1024_padded_len: "length elf64_1024_padded = 69632"
  by (simp add: elf64_1024_padded_def elf64_1024_len)

lemma elf64_1024_padded_ident:
  "take 4 elf64_1024_padded = elf_magic"
  "take 3 (drop 8 elf64_1024_padded) = magic_AI2"
  "elf64_1024_padded ! 4 = CHR 0x02"
  "elf64_1024_padded ! 5 = CHR 0x01"
  "elf64_1024_padded ! 6 = CHR 0x01"
  by (simp_all add: elf64_1024_padded_def elf64_1024_len elf64_1024_ident nth_append)

lemma elf64_1024_padded_field:
  "off + w \<le> 64 \<Longrightarrow>
   field_at order elf64_1024_padded off w = field_at order elf64_1024_sections off w"
  unfolding elf64_1024_padded_def by (rule field_at_prefix) (simp add: elf64_1024_len)

lemma elf64_1024_padded_tables:
  "header_tables elf64_1024_padded
     = \<lparr>e_phoff = 64, e_phentsize = 56, e_phnum = 0, e_shoff = 4096, e_shentsize = 64,
        e_shnum = 1024, e_shstrndx = 0\<rparr>"
  by (simp add: header_tables_def elf64_1024_padded_ident elf64_1024_padded_field
      elf64_1024_fields elf64_1024_tables)

lemma elf64_1024_padded_in_file: "tables_in_file elf64_1024_padded"
  by (simp add: tables_in_file_def elf64_1024_padded_tables elf64_1024_padded_ident
      elf64_1024_padded_len)

lemma elf64_1024_padded_NewFile:
  "elf_NewFile tables_in_file elf64_1024_padded
     = Inr \<lparr>Class = ELFCLASS64, ByteOrder = LittleEndian\<rparr>"
  by (simp add: elf_NewFile_def elf64_1024_padded_len elf64_1024_padded_ident
      elf64_1024_padded_in_file)

lemma elf64_1024_padded_header:
  "binary_Read_Header64 LittleEndian elf64_1024_padded
     = Inr \<lparr>Shoff = 4096, Shentsize = 64, Shnum = 1024\<rparr>"
  by (simp add: binary_Read_Header64_def elf64_1024_padded_len elf64_1024_padded_field
      elf64_1024_fields)

lemma elf64_1024_padded_type:
  "GetAppImageType [''app'' \<mapsto> elf64_1024_padded] ''app'' = Inr 2"
proof -
  have "magic_AI2 \<noteq> magic_AI1" by (simp add: magic_AI1_def magic_AI2_def)
  then show ?thesis
    using GetAppImageType_cases [of "[''app'' \<mapsto> elf64_1024_padded]" "''app''" elf64_1024_padded]
    by (simp add: elf64_1024_padded_ident)
qed

text \<open>On that file the Go function returns \<open>4096 + 64 * 1024\<close>.\<close>

lemma GetOffset_1024_sections:
  "GetOffset (elf_NewFile tables_in_file) [''app'' \<mapsto> elf64_1024_padded] ''app'' = Inr 69632"
proof -
  let ?hdr = "\<lparr>Shoff = 4096, Shentsize = 64, Shnum = 1024\<rparr>"
  have "unat (Shoff ?hdr) + unat (Shentsize ?hdr) * unat (Shnum ?hdr) = 69632" by simp
  moreover have "(69632::nat) < 2 ^ 63" by simp
  ultimately have small: "unat (Shoff ?hdr) + unat (Shentsize ?hdr) * unat (Shnum ?hdr) < 2 ^ 63"
    by (simp only:)
  have "GetOffset (elf_NewFile tables_in_file) [''app'' \<mapsto> elf64_1024_padded] ''app''
          = Inr (int (unat (Shoff ?hdr) + unat (Shentsize ?hdr) * unat (Shnum ?hdr)))"
  proof (rule GetOffset_type2_elf64 [where f = elf64_1024_padded
        and e = "\<lparr>Class = ELFCLASS64, ByteOrder = LittleEndian\<rparr>"])
    show "[''app'' \<mapsto> elf64_1024_padded] ''app'' = Some elf64_1024_padded" by simp
    show "GetAppImageType [''app'' \<mapsto> elf64_1024_padded] ''app'' = Inr 2"
      by (rule elf64_1024_padded_type)
    show "elf_NewFile tables_in_file elf64_1024_padded
            = Inr \<lparr>Class = ELFCLASS64, ByteOrder = LittleEndian\<rparr>"
      by (rule elf64_1024_padded_NewFile)
    show "Class \<lparr>Class = ELFCLASS64, ByteOrder = LittleEndian\<rparr> = ELFCLASS64" by simp
    show "binary_Read_Header64 (ByteOrder \<lparr>Class = ELFCLASS64, ByteOrder = LittleEndian\<rparr>)
            elf64_1024_padded = Inr ?hdr"
      by (simp add: elf64_1024_padded_header)
    show "unat (Shoff ?hdr) + unat (Shentsize ?hdr) * unat (Shnum ?hdr) < 2 ^ 63"
      by (rule small)
  qed
  then show ?thesis by simp
qed

text \<open>
  C1. The Zig function multiplies \<open>shentsize\<close> by \<open>shnum\<close> in \<open>u16\<close>: whenever the
  product of the two header fields reaches \<open>2^16\<close> the call ends in the overflow panic
  and returns no offset, where the claim has it return \<open>O + S * N\<close>.
\<close>

theorem getOffsetFromElf_product_overflow:
  assumes "read file = Inr header"
    and "2 ^ 16 \<le> unat (shentsize header) * unat (shnum header)"
  shows "getOffsetFromElf read file = Inl Panic_integer_overflow"
  using assms by (simp add: getOffsetFromElf_def)

theorem getOffsetFromElf_product_overflow_witness:
  "getKind elf64_1024_sections = Inr type2
   \<and> open_offset read_1024_sections elf64_1024_sections = Inl Panic_integer_overflow"
proof -
  have k: "getKind elf64_1024_sections = Inr type2"
  proof -
    have "magic_AI2 \<noteq> magic_AI1" by (simp add: magic_AI1_def magic_AI2_def)
    moreover have "take 19 elf64_1024_sections \<noteq> shimg_magic"
      using shimg_not_elf [of elf64_1024_sections] elf64_1024_ident(1) by blast
    ultimately show ?thesis
      by (simp add: getKind_by_marker elf64_1024_len elf64_1024_ident)
  qed
  have r: "read_1024_sections elf64_1024_sections = Inr header_1024_sections"
    by (simp add: read_1024_sections_def)
  have "(2::nat) ^ 16 \<le> unat (shentsize header_1024_sections) * unat (shnum header_1024_sections)"
    by (simp add: header_1024_sections_def)
  with r have "getOffsetFromElf read_1024_sections elf64_1024_sections = Inl Panic_integer_overflow"
    by (rule getOffsetFromElf_product_overflow)
  with k show ?thesis by (simp add: open_offset_def)
qed

section \<open>Detection and resolution on the example files\<close>

lemma elf64_type1_ident:
  "take 4 elf64_type1 = elf_magic"
  "take 3 (drop 8 elf64_type1) = magic_AI1"
  "length elf64_type1 = 64"
  by (simp_all add: elf64_type1_def elf64_1024_sections_def elf_magic_def magic_AI1_def)

lemma elf64_unmarked_ident:
  "take 4 elf64_unmarked = elf_magic"
  "take 3 (drop 8 elf64_unmarked) \<noteq> magic_AI1"
  "take 3 (drop 8 elf64_unmarked) \<noteq> magic_AI2"
  "take 2 (drop 8 elf64_unmarked) \<noteq> ''AI''"
  "length elf64_unmarked = 64"
  by (simp_all add: elf64_unmarked_def elf64_1024_sections_def elf_magic_def magic_AI1_def
      magic_AI2_def)

lemma elf64_class_none_ident:
  "take 4 elf64_class_none = elf_magic"
  "take 3 (drop 8 elf64_class_none) = magic_AI2"
  "length elf64_class_none = 64"
  "elf64_class_none ! 4 = CHR 0x00"
  by (simp_all add: elf64_class_none_def elf64_1024_sections_def elf_magic_def magic_AI2_def)

lemma shimg_file_ident:
  "take 19 shimg_file = shimg_magic"
  by (simp add: shimg_file_def shimg_magic_def)

lemma hello_ident:
  "take 4 ''hello'' \<noteq> elf_magic" "take 19 ''hello'' \<noteq> shimg_magic"
  by (simp_all add: elf_magic_def shimg_magic_def)

theorem detection_outcomes_witness:
  "GetAppImageType [''app'' \<mapsto> elf64_1024_sections] ''app'' = Inr 2
   \<and> getKind elf64_1024_sections = Inr type2
   \<and> GetAppImageType [''app'' \<mapsto> elf64_type1] ''app'' = Inr 1
   \<and> getKind elf64_type1 = Inr type1
   \<and> GetAppImageType [''app'' \<mapsto> elf64_unmarked] ''app'' = Inr 0
   \<and> GetAppImageType [''app'' \<mapsto> shimg_file] ''app'' = Inr (- 2)
   \<and> getKind shimg_file = Inr shimg
   \<and> GetAppImageType [''app'' \<mapsto> ''hello''] ''app'' = Inl UnableToGetType
   \<and> getKind ''hello'' = Inl InvalidFormat"
proof -
  have l2: "19 \<le> length elf64_1024_sections" by (simp add: elf64_1024_len)
  have "[''app'' \<mapsto> elf64_1024_sections] ''app'' = Some elf64_1024_sections" by simp
  from detection_outcomes [of "[''app'' \<mapsto> elf64_1024_sections]" "''app''" elf64_1024_sections, OF this] elf64_1024_ident(1,2) l2
  have a: "GetAppImageType [''app'' \<mapsto> elf64_1024_sections] ''app'' = Inr 2
      \<and> getKind elf64_1024_sections = Inr type2"
    by blast
  have l1: "19 \<le> length elf64_type1" by (simp add: elf64_type1_ident)
  have "[''app'' \<mapsto> elf64_type1] ''app'' = Some elf64_type1" by simp
  from detection_outcomes [of "[''app'' \<mapsto> elf64_type1]" "''app''" elf64_type1, OF this] elf64_type1_ident(1,2) l1
  have b: "GetAppImageType [''app'' \<mapsto> elf64_type1] ''app'' = Inr 1
      \<and> getKind elf64_type1 = Inr type1"
    by blast
  have "[''app'' \<mapsto> elf64_unmarked] ''app'' = Some elf64_unmarked" by simp
  from detection_outcomes [of "[''app'' \<mapsto> elf64_unmarked]" "''app''" elf64_unmarked, OF this] elf64_unmarked_ident(1,2,3)
  have c: "GetAppImageType [''app'' \<mapsto> elf64_unmarked] ''app'' = Inr 0"
    by blast
  have "[''app'' \<mapsto> shimg_file] ''app'' = Some shimg_file" by simp
  from detection_outcomes [of "[''app'' \<mapsto> shimg_file]" "''app''" shimg_file, OF this] shimg_file_ident
  have d: "GetAppImageType [''app'' \<mapsto> shimg_file] ''app'' = Inr (- 2)
      \<and> getKind shimg_file = Inr shimg"
    by blast
  have lh: "length ''hello'' < 19" by simp
  have "[''app'' \<mapsto> ''hello''] ''app'' = Some ''hello''" by simp
  from detection_outcomes [of "[''app'' \<mapsto> ''hello'']" "''app''" "''hello''", OF this] hello_ident lh
  have e: "GetAppImageType [''app'' \<mapsto> ''hello''] ''app'' = Inl UnableToGetType
      \<and> getKind ''hello'' = Inl InvalidFormat"
    by blast
  from a b c d e show ?thesis by blast
qed

text \<open>
  The claim as stated fails on both implementations: the four bytes of the ELF magic
  alone, shorter than the 19-byte window, are an unknown ELF for the Go function; and
  the Zig function answers an ELF without the marker with an error, not with a kind.
\<close>

theorem detection_short_input_counterexample:
  "length elf_magic < 19
   \<and> GetAppImageType [''app'' \<mapsto> elf_magic] ''app'' = Inr 0
   \<and> take 4 elf64_unmarked = elf_magic
   \<and> getKind elf64_unmarked = Inl InvalidFromat"
proof -
  have "GetAppImageType [''app'' \<mapsto> elf_magic] ''app'' = Inr 0"
    using GetAppImageType_cases [of "[''app'' \<mapsto> elf_magic]" "''app''" elf_magic]
    by (simp add: elf_magic_def magic_AI1_def magic_AI2_def)
  moreover have "take 19 elf64_unmarked \<noteq> shimg_magic"
    using shimg_not_elf [of elf64_unmarked] elf64_unmarked_ident(1) by blast
  then have "getKind elf64_unmarked = Inl InvalidFromat"
    by (simp add: getKind_by_marker elf64_unmarked_ident)
  ultimately show ?thesis by (simp add: magic_lengths elf64_unmarked_ident)
qed


section \<open>Resolution by kind\<close>

text \<open>
  The last arm of the class switch: a parsed file whose class is neither 32-bit nor
  64-bit gives the offset 0 and no error.
\<close>

lemma getElfSize_other_class:
  assumes "fs src = Some f" and "nf f = Inr e"
    and "Class e \<noteq> ELFCLASS64" and "Class e \<noteq> ELFCLASS32"
  shows "getElfSize nf fs src = Inr 0"
  using assms by (cases "Class e") (simp_all add: getElfSize_def)

text \<open>
  The library's parser does not hand such a file over: a class byte other than 1 and 2
  is its format error, as is a file too short to hold the identification.
\<close>

lemma elf_NewFile_unknown_class:
  assumes "4 < length f" and "of_char (f ! 4) \<noteq> (1::nat)" and "of_char (f ! 4) \<noteq> (2::nat)"
  shows "\<exists>err. elf_NewFile rest_ok f = Inl err"
  using assms by (simp add: elf_NewFile_def)

lemma GetAppImageType_elf:
  assumes "fs src = Some f" and "take 4 f = elf_magic"
  shows "GetAppImageType fs src = Inr 1 \<or> GetAppImageType fs src = Inr 2
         \<or> GetAppImageType fs src = Inr 0"
  using GetAppImageType_cases [of fs src f] assms by simp

text \<open>
  C2 (as amended). \<open>GetOffset\<close> goes to the ELF section-header computation for type 2
  only; type 1 is the error "unsupported AppImage type" and an unknown ELF the error
  about the missing type-2 magic. The computation reads the 64-bit or the 32-bit header
  in the byte order the file declares and returns \<open>shoff + shentsize * shnum\<close> in Go's
  \<open>int\<close>. A file with the ELF magic whose class byte is neither 1 nor 2 gets an error,
  never an offset: \<open>elf.NewFile\<close> rejects it before the class switch is reached.
\<close>

theorem GetOffset_by_kind:
  assumes "fs src = Some f"
  shows
    "(GetAppImageType fs src = Inr 2 \<longrightarrow> GetOffset nf fs src = getElfSize nf fs src)
   \<and> (GetAppImageType fs src = Inr 1 \<longrightarrow> GetOffset nf fs src = Inl UnsupportedType)
   \<and> (GetAppImageType fs src = Inr 0 \<longrightarrow> GetOffset nf fs src = Inl MissingType2Magic)
   \<and> (nf f = Inr e \<and> Class e = ELFCLASS64 \<and> binary_Read_Header64 (ByteOrder e) f = Inr hdr
        \<longrightarrow> getElfSize nf fs src =
              Inr (go_int (sint (Shoff hdr) + go_int (uint (Shentsize hdr) * uint (Shnum hdr)))))
   \<and> (nf f = Inr e \<and> Class e = ELFCLASS32 \<and> binary_Read_Header32 (ByteOrder e) f = Inr hdr32
        \<longrightarrow> getElfSize nf fs src =
              Inr (go_int (uint (Shoff32 hdr32)
                     + go_int (uint (Shentsize32 hdr32) * uint (Shnum32 hdr32)))))
   \<and> (take 4 f = elf_magic \<and> 4 < length f
        \<and> of_char (f ! 4) \<noteq> (1::nat) \<and> of_char (f ! 4) \<noteq> (2::nat)
        \<longrightarrow> (\<exists>err. GetOffset (elf_NewFile rest_ok) fs src = Inl err))"
proof -
  have k2: "GetAppImageType fs src = Inr 2 \<longrightarrow> GetOffset nf fs src = getElfSize nf fs src"
    by (simp add: GetOffset_def)
  have k1: "GetAppImageType fs src = Inr 1 \<longrightarrow> GetOffset nf fs src = Inl UnsupportedType"
    by (simp add: GetOffset_def)
  have k0: "GetAppImageType fs src = Inr 0 \<longrightarrow> GetOffset nf fs src = Inl MissingType2Magic"
    by (simp add: GetOffset_def)
  have c64: "nf f = Inr e \<and> Class e = ELFCLASS64 \<and> binary_Read_Header64 (ByteOrder e) f = Inr hdr
        \<longrightarrow> getElfSize nf fs src =
              Inr (go_int (sint (Shoff hdr) + go_int (uint (Shentsize hdr) * uint (Shnum hdr))))"
    using assms getElfSize_class64 [of fs src f nf e hdr] by blast
  have c32: "nf f = Inr e \<and> Class e = ELFCLASS32 \<and> binary_Read_Header32 (ByteOrder e) f = Inr hdr32
        \<longrightarrow> getElfSize nf fs src =
              Inr (go_int (uint (Shoff32 hdr32)
                     + go_int (uint (Shentsize32 hdr32) * uint (Shnum32 hdr32))))"
    using assms getElfSize_class32 [of fs src f nf e hdr32] by blast
  have bad: "take 4 f = elf_magic \<and> 4 < length f
        \<and> of_char (f ! 4) \<noteq> (1::nat) \<and> of_char (f ! 4) \<noteq> (2::nat)
        \<longrightarrow> (\<exists>err. GetOffset (elf_NewFile rest_ok) fs src = Inl err)"
  proof (intro impI, elim conjE)
    assume m: "take 4 f = elf_magic" and l: "4 < length f"
      and c1: "of_char (f ! 4) \<noteq> (1::nat)" and c2: "of_char (f ! 4) \<noteq> (2::nat)"
    from elf_NewFile_unknown_class [OF l c1 c2]
    obtain err where e: "elf_NewFile rest_ok f = Inl err" by blast
    with assms have "getElfSize (elf_NewFile rest_ok) fs src = Inl err"
      by (simp add: getElfSize_def)
    with GetAppImageType_elf [of fs src f] assms m show "\<exists>err. GetOffset (elf_NewFile rest_ok) fs src = Inl err"
      by (auto simp: GetOffset_def)
  qed
  from k2 k1 k0 c64 c32 bad show ?thesis by blast
qed

theorem GetOffset_by_kind_witness:
  "GetOffset (elf_NewFile tables_in_file) [''app'' \<mapsto> elf64_1024_padded] ''app'' = Inr 69632
   \<and> GetOffset (elf_NewFile tables_in_file) [''app'' \<mapsto> elf64_unmarked] ''app'' = Inl MissingType2Magic
   \<and> (\<exists>err. GetOffset (elf_NewFile tables_in_file) [''app'' \<mapsto> elf64_class_none] ''app'' = Inl err)"
proof -
  let ?nf = "elf_NewFile tables_in_file"
  let ?e = "\<lparr>Class = ELFCLASS64, ByteOrder = LittleEndian\<rparr>"
  let ?hdr = "\<lparr>Shoff = 4096, Shentsize = 64, Shnum = 1024\<rparr>"
  have v: "go_int (sint (Shoff ?hdr) + go_int (uint (Shentsize ?hdr) * uint (Shnum ?hdr))) = 69632"
  proof -
    have "unat (Shoff ?hdr) + unat (Shentsize ?hdr) * unat (Shnum ?hdr) = 69632" by simp
    moreover have "(69632::nat) < 2 ^ 63" by simp
    ultimately have "unat (Shoff ?hdr) + unat (Shentsize ?hdr) * unat (Shnum ?hdr) < 2 ^ 63"
      by (simp only:)
    from offset_sum_exact [OF this] show ?thesis by simp
  qed
  have "[''app'' \<mapsto> elf64_1024_padded] ''app'' = Some elf64_1024_padded" by simp
  from GetOffset_by_kind [where fs = "[''app'' \<mapsto> elf64_1024_padded]" and src = "''app''"
      and f = elf64_1024_padded and nf = ?nf and e = ?e and hdr = ?hdr, OF this]
  have "GetOffset ?nf [''app'' \<mapsto> elf64_1024_padded] ''app''
          = getElfSize ?nf [''app'' \<mapsto> elf64_1024_padded] ''app''"
    and "getElfSize ?nf [''app'' \<mapsto> elf64_1024_padded] ''app''
          = Inr (go_int (sint (Shoff ?hdr) + go_int (uint (Shentsize ?hdr) * uint (Shnum ?hdr))))"
    using elf64_1024_padded_type elf64_1024_padded_NewFile elf64_1024_padded_header by simp_all
  with v have a: "GetOffset ?nf [''app'' \<mapsto> elf64_1024_padded] ''app'' = Inr 69632"
    by (simp only:)
  have t0: "GetAppImageType [''app'' \<mapsto> elf64_unmarked] ''app'' = Inr 0"
    using GetAppImageType_cases [of "[''app'' \<mapsto> elf64_unmarked]" "''app''" elf64_unmarked]
    by (simp add: elf64_unmarked_ident)
  have "[''app'' \<mapsto> elf64_unmarked] ''app'' = Some elf64_unmarked" by simp
  from GetOffset_by_kind [where fs = "[''app'' \<mapsto> elf64_unmarked]" and src = "''app''"
      and f = elf64_unmarked and nf = ?nf, OF this] t0
  have b: "GetOffset ?nf [''app'' \<mapsto> elf64_unmarked] ''app'' = Inl MissingType2Magic"
    by blast
  have cl: "4 < length elf64_class_none" "of_char (elf64_class_none ! 4) \<noteq> (1::nat)"
    "of_char (elf64_class_none ! 4) \<noteq> (2::nat)"
    by (simp_all add: elf64_class_none_ident)
  have "[''app'' \<mapsto> elf64_class_none] ''app'' = Some elf64_class_none" by simp
  from GetOffset_by_kind [where fs = "[''app'' \<mapsto> elf64_class_none]" and src = "''app''"
      and f = elf64_class_none and rest_ok = tables_in_file, OF this] elf64_class_none_ident(1) cl
  have c: "\<exists>err. GetOffset ?nf [''app'' \<mapsto> elf64_class_none] ''app'' = Inl err"
    by blast
  from a b c show ?thesis by blast
qed

text \<open>
  The claim as stated fails on a type-1 file: it is detected as an ELF kind, and the
  resolution returns the error for an unsupported type without reading the header.
\<close>

theorem GetOffset_type1_counterexample:
  "GetAppImageType [''app'' \<mapsto> elf64_type1] ''app'' = Inr 1
   \<and> GetOffset (elf_NewFile tables_in_file) [''app'' \<mapsto> elf64_type1] ''app'' = Inl UnsupportedType"
proof -
  have "GetAppImageType [''app'' \<mapsto> elf64_type1] ''app'' = Inr 1"
    using GetAppImageType_cases [of "[''app'' \<mapsto> elf64_type1]" "''app''" elf64_type1]
    by (simp add: elf64_type1_ident)
  then show ?thesis by (simp add: GetOffset_def)
qed

section \<open>Levels and the resolved identity\<close>

lemma Join_home_ai: "filepath_Join [''/home'', ''ai''] = ''/home/ai''"
  by (simp add: filepath_Join_def filepath_Clean_def clean_step_def strings_Split_def)

lemma Join_home_alice: "filepath_Join [''/home'', ''alice''] = ''/home/alice''"
  by (simp add: filepath_Join_def filepath_Clean_def clean_step_def strings_Split_def)

lemma Join_home_root: "filepath_Join [''/home'', ''root''] = ''/home/root''"
  by (simp add: filepath_Join_def filepath_Clean_def clean_step_def strings_Split_def)

lemma Itoa_examples: "strconv_Itoa 0 = ''0''" "strconv_Itoa 1000 = ''1000''"
  by code_simp+

lemma updateHome_real:
  assumes "l = 0 \<or> l = 1" and "current_user env = Some usr"
  shows "updateHome env l g =
           Inr (None, g\<lparr>usern := Username usr,
                         homed := filepath_Join [''/home'', Username usr],
                         uid := strconv_Itoa (getuid env)\<rparr>)"
  using assms by (auto simp: updateHome_def Let_def)

lemma updateHome_synthetic:
  assumes "2 \<le> l" and "l \<le> 3"
  shows "updateHome env l g =
           Inr (None, g\<lparr>usern := ''ai'', homed := ''/home/ai'',
                         uid := strconv_Itoa (getuid env)\<rparr>)"
  using assms by (auto simp: updateHome_def Let_def Join_home_ai)

lemma updateHome_invalid:
  assumes "l < 0 \<or> 3 < l"
  shows "updateHome env l g = Inr (Some LevelOutOfRange, g)"
  using assms by (auto simp: updateHome_def)

text \<open>
  C7 (as amended). For a container with permissions: \<open>SetLevel\<close> fails with the level
  error exactly for a level outside 0..3, and then leaves the stored level, the
  username, the home and the uid as they were. Levels 2 and 3 set the username \<open>ai\<close>
  and the home \<open>/home/ai\<close>. Levels 0 and 1, when the account lookup succeeds, set the
  account's username and the home \<open>/home/<username>\<close>, built from the username and not
  taken from the account's home directory. Every success sets the uid to the decimal
  form of the real user id and stores the level.
\<close>

theorem SetLevel_identity:
  assumes "Perms ai = Some perms"
  shows
    "(2 \<le> l \<and> l \<le> 3 \<longrightarrow>
        SetLevel env ai l g =
          Inr (None,
               g\<lparr>usern := ''ai'', homed := ''/home/ai'', uid := strconv_Itoa (getuid env),
                  g_err := None\<rparr>,
               ai\<lparr>Perms := Some (perms\<lparr>Level := l\<rparr>)\<rparr>))
   \<and> ((l = 0 \<or> l = 1) \<and> current_user env = Some usr \<longrightarrow>
        SetLevel env ai l g =
          Inr (None,
               g\<lparr>usern := Username usr, homed := filepath_Join [''/home'', Username usr],
                  uid := strconv_Itoa (getuid env), g_err := None\<rparr>,
               ai\<lparr>Perms := Some (perms\<lparr>Level := l\<rparr>)\<rparr>))
   \<and> (l < 0 \<or> 3 < l \<longrightarrow>
        SetLevel env ai l g = Inr (Some LevelOutOfRange, g\<lparr>g_err := Some LevelOutOfRange\<rparr>, ai))"
proof -
  have a: "2 \<le> l \<and> l \<le> 3 \<longrightarrow>
        SetLevel env ai l g =
          Inr (None,
               g\<lparr>usern := ''ai'', homed := ''/home/ai'', uid := strconv_Itoa (getuid env),
                  g_err := None\<rparr>,
               ai\<lparr>Perms := Some (perms\<lparr>Level := l\<rparr>)\<rparr>)"
    using assms by (simp add: SetLevel_def updateHome_synthetic)
  have b: "(l = 0 \<or> l = 1) \<and> current_user env = Some usr \<longrightarrow>
        SetLevel env ai l g =
          Inr (None,
               g\<lparr>usern := Username usr, homed := filepath_Join [''/home'', Username usr],
                  uid := strconv_Itoa (getuid env), g_err := None\<rparr>,
               ai\<lparr>Perms := Some (perms\<lparr>Level := l\<rparr>)\<rparr>)"
    using assms by (auto simp: SetLevel_def updateHome_real)
  have c: "l < 0 \<or> 3 < l \<longrightarrow>
        SetLevel env ai l g = Inr (Some LevelOutOfRange, g\<lparr>g_err := Some LevelOutOfRange\<rparr>, ai)"
    by (auto simp: SetLevel_def updateHome_invalid)
  from a b c show ?thesis by blast
qed

theorem SetLevel_identity_witness:
  "SetLevel env_alice fresh_AppImage 2 initial_globals =
     Inr (None,
          initial_globals\<lparr>usern := ''ai'', homed := ''/home/ai'', uid := ''1000'', g_err := None\<rparr>,
          fresh_AppImage\<lparr>Perms := Some (no_grants\<lparr>Level := 2\<rparr>)\<rparr>)
   \<and> SetLevel env_alice fresh_AppImage 0 initial_globals =
     Inr (None,
          initial_globals\<lparr>usern := ''alice'', homed := ''/home/alice'', uid := ''1000'',
                           g_err := None\<rparr>,
          fresh_AppImage\<lparr>Perms := Some (no_grants\<lparr>Level := 0\<rparr>)\<rparr>)
   \<and> SetLevel env_alice fresh_AppImage 4 initial_globals =
     Inr (Some LevelOutOfRange, initial_globals\<lparr>g_err := Some LevelOutOfRange\<rparr>, fresh_AppImage)"
proof -
  have p: "Perms fresh_AppImage = Some no_grants" by (simp add: fresh_AppImage_def)
  have u: "current_user env_alice = Some alice" "getuid env_alice = 1000"
    "Username alice = ''alice''"
    by (simp_all add: env_alice_def alice_def)
  from SetLevel_identity [OF p, where l = 2 and env = env_alice and g = initial_globals]
  have a: "SetLevel env_alice fresh_AppImage 2 initial_globals =
     Inr (None,
          initial_globals\<lparr>usern := ''ai'', homed := ''/home/ai'', uid := ''1000'', g_err := None\<rparr>,
          fresh_AppImage\<lparr>Perms := Some (no_grants\<lparr>Level := 2\<rparr>)\<rparr>)"
    by (simp add: u Itoa_examples)
  from SetLevel_identity [OF p, where l = 0 and env = env_alice and g = initial_globals
      and usr = alice]
  have b: "SetLevel env_alice fresh_AppImage 0 initial_globals =
     Inr (None,
          initial_globals\<lparr>usern := ''alice'', homed := ''/home/alice'', uid := ''1000'',
                           g_err := None\<rparr>,
          fresh_AppImage\<lparr>Perms := Some (no_grants\<lparr>Level := 0\<rparr>)\<rparr>)"
    by (simp add: u Itoa_examples Join_home_alice)
  from SetLevel_identity [OF p, where l = 4 and env = env_alice and g = initial_globals]
  have c: "SetLevel env_alice fresh_AppImage 4 initial_globals =
     Inr (Some LevelOutOfRange, initial_globals\<lparr>g_err := Some LevelOutOfRange\<rparr>, fresh_AppImage)"
    by simp
  from a b c show ?thesis by blast
qed

text \<open>
  The claim as stated fails for an account whose home is not \<open>/home/<username>\<close>: for
  root at level 0 the resolved home is \<open>/home/root\<close>, the account's home is \<open>/root\<close>.
\<close>

theorem SetLevel_root_home_counterexample:
  "SetLevel env_root fresh_AppImage 0 initial_globals =
     Inr (None,
          initial_globals\<lparr>usern := ''root'', homed := ''/home/root'', uid := ''0'', g_err := None\<rparr>,
          fresh_AppImage\<lparr>Perms := Some (no_grants\<lparr>Level := 0\<rparr>)\<rparr>)
   \<and> current_user env_root = Some root_user
   \<and> HomeDir root_user = ''/root''"
proof -
  have "updateHome env_root 0 initial_globals =
     Inr (None, initial_globals\<lparr>usern := ''root'', homed := ''/home/root'', uid := ''0''\<rparr>)"
    using updateHome_real [of 0 env_root root_user initial_globals]
    by (simp add: env_root_def root_user_def Join_home_root Itoa_examples)
  then show ?thesis
    by (simp add: SetLevel_def fresh_AppImage_def env_root_def root_user_def)
qed
section \<open>The package variables are shared\<close>





section \<open>Directories on the failure paths of an open\<close>

lemma load_entry_world: "fst (snd (load_entry env ai path w g)) = w"
  by (simp add: load_entry_def Let_def split: option.splits sum.splits prod.splits)

lemma NewAppImage_steps:
  "NewAppImage nf env src w g =
     (if mkdir_fails w (scratch_dir w) then (Inr (Inl MkdirError), w, g)
      else
        (case GetOffset nf (files w) src of
           Inl err \<Rightarrow> (Inr (Inl err), after_mkdirs w, g)
         | Inr off \<Rightarrow>
             (case Mount w src (mount_dir w) off of
                Some err \<Rightarrow> (Inr (Inl err), after_mkdirs w, g)
              | None \<Rightarrow>
                  (case Glob w (mount_dir w @ ''/*.desktop'') of
                     Inl err \<Rightarrow> (Inr (Inl err), after_mkdirs w, g)
                   | Inr fp \<Rightarrow>
                       if fp = [] then (Inl IndexOutOfRange, after_mkdirs w, g)
                       else load_entry env
                              (empty_AppImage\<lparr>Path := src, runId := RandString w,
                                 tempDir := scratch_dir w, mountDir := mount_dir w,
                                 rmMountDir := True, Offset := off\<rparr>)
                              (fp ! 0) (after_mkdirs w) g))))"
  by (simp add: NewAppImage_def MakeTemp_def after_mkdirs_def scratch_dir_def mount_dir_def
      Let_def empty_AppImage_def split: sum.splits option.splits)

lemma NewAppImage_world: "fst (snd (NewAppImage nf env src w g)) = after_mkdirs w"
  by (simp add: NewAppImage_steps load_entry_world after_mkdirs_def
      split: sum.splits option.splits)


text \<open>
  C5 (as amended). \<open>NewAppImage\<close> removes no directory on any path. When the offset
  resolution or the mount fails, the error is returned and the scratch directory and the
  mount directory the open has created are still there; only a failure to create the
  scratch directory itself returns with the directories as they were.
\<close>

theorem NewAppImage_keeps_directories:
  assumes "NewAppImage nf env src w g = (r, w', g')"
  shows
    "dirs w \<subseteq> dirs w'
   \<and> (mkdir_fails w (scratch_dir w) \<longrightarrow> r = Inr (Inl MkdirError) \<and> dirs w' = dirs w)
   \<and> (\<not> mkdir_fails w (scratch_dir w) \<longrightarrow> scratch_dir w \<in> dirs w')
   \<and> (\<not> mkdir_fails w (scratch_dir w) \<and> \<not> mkdir_fails w (mount_dir w)
        \<longrightarrow> mount_dir w \<in> dirs w')
   \<and> (\<not> mkdir_fails w (scratch_dir w) \<and> GetOffset nf (files w) src = Inl err
        \<longrightarrow> r = Inr (Inl err))
   \<and> (\<not> mkdir_fails w (scratch_dir w) \<and> GetOffset nf (files w) src = Inr off
        \<and> Mount w src (mount_dir w) off = Some err \<longrightarrow> r = Inr (Inl err))"
proof -
  from assms have w': "w' = after_mkdirs w"
    using NewAppImage_world [of nf env src w g] by simp
  from assms have r: "r = fst (NewAppImage nf env src w g)" by simp
  have d1: "dirs w \<subseteq> dirs w'"
    unfolding w' by (auto simp: after_mkdirs_def)
  have d2: "mkdir_fails w (scratch_dir w) \<longrightarrow> r = Inr (Inl MkdirError) \<and> dirs w' = dirs w"
    unfolding w' r by (simp add: NewAppImage_steps after_mkdirs_def)
  have d3: "\<not> mkdir_fails w (scratch_dir w) \<longrightarrow> scratch_dir w \<in> dirs w'"
    unfolding w' by (simp add: after_mkdirs_def)
  have d4: "\<not> mkdir_fails w (scratch_dir w) \<and> \<not> mkdir_fails w (mount_dir w)
        \<longrightarrow> mount_dir w \<in> dirs w'"
    unfolding w' by (simp add: after_mkdirs_def)
  have d5: "\<not> mkdir_fails w (scratch_dir w) \<and> GetOffset nf (files w) src = Inl err
        \<longrightarrow> r = Inr (Inl err)"
    unfolding r by (simp add: NewAppImage_steps)
  have d6: "\<not> mkdir_fails w (scratch_dir w) \<and> GetOffset nf (files w) src = Inr off
        \<and> Mount w src (mount_dir w) off = Some err \<longrightarrow> r = Inr (Inl err)"
    unfolding r by (simp add: NewAppImage_steps)
  from d1 d2 d3 d4 d5 d6 show ?thesis by blast
qed

lemma run0_dirs:
  assumes "RandString w = ''run0run0''"
  shows "scratch_dir w = ''/tmp/.aisapTemp_run0run0''"
    and "mount_dir w = ''/tmp/.aisapTemp_run0run0/.mount_run0run0''"
  using assms by (simp_all add: scratch_dir_def mount_dir_def Join_tmp_scratch Join_scratch_mount)

theorem NewAppImage_keeps_directories_witness:
  "fst (NewAppImage (elf_NewFile tables_in_file) env_alice ''app.shImg'' world_mount_fails initial_globals)
     = Inr (Inl MountError)
   \<and> ''/tmp/.aisapTemp_run0run0''
       \<in> dirs (fst (snd (NewAppImage (elf_NewFile tables_in_file) env_alice ''app.shImg'' world_mount_fails initial_globals)))
   \<and> ''/tmp/.aisapTemp_run0run0/.mount_run0run0''
       \<in> dirs (fst (snd (NewAppImage (elf_NewFile tables_in_file) env_alice ''app.shImg'' world_mount_fails initial_globals)))"
proof -
  let ?w = world_mount_fails
  let ?run = "NewAppImage (elf_NewFile tables_in_file) env_alice ''app.shImg'' ?w initial_globals"
  have rs: "RandString ?w = ''run0run0''"
    by (simp add: world_mount_fails_def world_without_desktop_def)
  have mk: "\<not> mkdir_fails ?w (scratch_dir ?w)" "\<not> mkdir_fails ?w (mount_dir ?w)"
    by (simp_all add: world_mount_fails_def world_without_desktop_def)
  have off: "GetOffset (elf_NewFile tables_in_file) (files ?w) ''app.shImg'' = Inr 4096"
    by (simp add: world_mount_fails_def world_without_desktop_def shimg_file_offset)
  have mnt: "Mount ?w ''app.shImg'' (mount_dir ?w) 4096 = Some MountError"
    by (simp add: world_mount_fails_def world_without_desktop_def)
  have "?run = (fst ?run, fst (snd ?run), snd (snd ?run))" by simp
  from NewAppImage_keeps_directories [OF this, where off = 4096 and err = MountError] mk off mnt
  have "fst ?run = Inr (Inl MountError) \<and> scratch_dir ?w \<in> dirs (fst (snd ?run))
      \<and> mount_dir ?w \<in> dirs (fst (snd ?run))"
    by blast
  then show ?thesis by (simp only: run0_dirs [OF rs])
qed

text \<open>
  The claim as stated fails where the file cannot be opened: the open returns the error
  of the offset resolution, and the scratch directory it created beforehand, which was
  not there before, is left behind.
\<close>

theorem NewAppImage_leaves_scratch_counterexample:
  "fst (NewAppImage (elf_NewFile tables_in_file) env_alice ''app.shImg'' world_missing_file
          initial_globals) = Inr (Inl OpenError)
   \<and> ''/tmp/.aisapTemp_run0run0''
       \<in> dirs (fst (snd (NewAppImage (elf_NewFile tables_in_file) env_alice ''app.shImg''
                             world_missing_file initial_globals)))
   \<and> ''/tmp/.aisapTemp_run0run0'' \<notin> dirs world_missing_file"
proof -
  let ?w = world_missing_file
  have rs: "RandString ?w = ''run0run0''"
    by (simp add: world_missing_file_def world_without_desktop_def)
  have mk: "\<not> mkdir_fails ?w (scratch_dir ?w)"
    by (simp add: world_missing_file_def world_without_desktop_def)
  have off: "GetOffset (elf_NewFile tables_in_file) (files ?w) ''app.shImg'' = Inl OpenError"
    by (simp add: world_missing_file_def GetOffset_def GetAppImageType_def)
  have a: "fst (NewAppImage (elf_NewFile tables_in_file) env_alice ''app.shImg'' ?w initial_globals)
      = Inr (Inl OpenError)"
    using mk off by (simp add: NewAppImage_steps)
  have "scratch_dir ?w \<in> dirs (after_mkdirs ?w)"
    using mk by (simp add: after_mkdirs_def)
  then have b: "''/tmp/.aisapTemp_run0run0''
       \<in> dirs (fst (snd (NewAppImage (elf_NewFile tables_in_file) env_alice ''app.shImg''
                             ?w initial_globals)))"
    by (simp only: NewAppImage_world run0_dirs [OF rs])
  have c: "''/tmp/.aisapTemp_run0run0'' \<notin> dirs ?w"
    by (simp add: world_missing_file_def world_without_desktop_def)
  from a b c show ?thesis by blast
qed

section \<open>The shappimage offset: the Go scan\<close>

lemma split_from_no_sep: "sep \<notin> set s \<Longrightarrow> split_from part s sep = [part @ s]"
  by (induction s arbitrary: part) auto

lemma split_from_first:
  "sep \<notin> set a \<Longrightarrow> split_from part (a @ sep # b) sep = (part @ a) # split_from [] b sep"
  by (induction a arbitrary: part) auto

lemma sfs_prefix_split: "sfs_prefix = ''sfs_offset'' @ [CHR ''='']"
  by (simp add: sfs_prefix_def)

lemma prefixed_line:
  assumes "take 11 text = sfs_prefix"
  shows "text = ''sfs_offset'' @ CHR ''='' # drop 11 text" and "10 < length text"
proof -
  have "text = take 11 text @ drop 11 text" by simp
  with assms show "text = ''sfs_offset'' @ CHR ''='' # drop 11 text"
    by (simp add: sfs_prefix_def)
  from assms have "length (take 11 text) = 11" by (simp add: sfs_prefix_def)
  then show "10 < length text" by simp
qed

lemma Split_prefixed_line:
  assumes "take 11 text = sfs_prefix"
  shows "strings_Split text (CHR ''='') = ''sfs_offset'' # strings_Split (drop 11 text) (CHR ''='')"
proof -
  have "CHR ''='' \<notin> set ''sfs_offset''" by simp
  then have "split_from [] (''sfs_offset'' @ CHR ''='' # drop 11 text) (CHR ''='')
      = ([] @ ''sfs_offset'') # split_from [] (drop 11 text) (CHR ''='')"
    by (rule split_from_first)
  moreover from prefixed_line(1) [OF assms]
  have "split_from [] text (CHR ''='')
      = split_from [] (''sfs_offset'' @ CHR ''='' # drop 11 text) (CHR ''='')"
    by (rule arg_cong [where f = "\<lambda>t. split_from [] t (CHR ''='')"])
  ultimately show ?thesis by (simp only: strings_Split_def append_Nil)
qed

lemma go_line_test:
  "(length text > 10 \<and> take 11 text = ''sfs_offset='' \<and>
      length (strings_Split text (CHR ''='')) = 2) = sfs_line_go text"
proof (cases "take 11 text = sfs_prefix")
  case True
  have "(length (strings_Split (drop 11 text) (CHR ''='')) = 1)
          = (CHR ''='' \<notin> set (drop 11 text))"
    by (auto simp: strings_Split_length filter_empty_conv)
  with True prefixed_line(2) [OF True] show ?thesis
    by (simp add: Split_prefixed_line sfs_line_go_def sfs_prefix_def)
next
  case False
  then show ?thesis by (simp add: sfs_line_go_def sfs_prefix_def)
qed

lemma go_line_value:
  assumes "sfs_line_go text"
  shows "strings_Split text (CHR ''='') ! 1 = drop 11 text"
proof -
  from assms have p: "take 11 text = sfs_prefix" and n: "CHR ''='' \<notin> set (drop 11 text)"
    by (simp_all add: sfs_line_go_def)
  from n have "strings_Split (drop 11 text) (CHR ''='') = [drop 11 text]"
    by (simp add: strings_Split_def split_from_no_sep)
  with Split_prefixed_line [OF p] show ?thesis by simp
qed

lemma unquote_ReplaceAll:
  "strings_ReplaceAll_empty (strings_ReplaceAll_empty s (CHR 0x27)) (CHR 0x22) = unquote s"
  by (induction s) (auto simp: strings_ReplaceAll_empty_def unquote_def)

lemma scan_sfs_offset_Cons:
  "scan_sfs_offset (ln # rest) =
     (if sfs_line_go ln then strconv_Atoi (unquote (drop 11 ln)) else scan_sfs_offset rest)"
proof (cases "sfs_line_go ln")
  case True
  with go_line_test [of ln]
  have "(length ln > 10 \<and> take 11 ln = ''sfs_offset='' \<and>
      length (strings_Split ln (CHR ''='')) = 2) = True"
    by blast
  then show ?thesis
    by (simp only: scan_sfs_offset.simps if_True Let_def go_line_value [OF True]
        unquote_ReplaceAll True)
next
  case False
  with go_line_test [of ln]
  have "(length ln > 10 \<and> take 11 ln = ''sfs_offset='' \<and>
      length (strings_Split ln (CHR ''='')) = 2) = False"
    by blast
  then show ?thesis
    by (simp only: scan_sfs_offset.simps if_False False)
qed

lemma scan_sfs_offset_find:
  "scan_sfs_offset ls =
     (case find sfs_line_go ls of
        None \<Rightarrow> Inl OffsetVarNotFound
      | Some ln \<Rightarrow> strconv_Atoi (unquote (drop 11 ln)))"
proof (induction ls)
  case Nil
  then show ?case by simp
next
  case (Cons ln rest)
  then show ?case by (simp only: scan_sfs_offset_Cons find.simps split: if_splits) simp
qed

section \<open>The shappimage offset: what Atoi accepts\<close>

lemma int_in_range:
  fixes v a :: int
  assumes "0 \<le> v" and "v < a"
  shows "(v < - a \<or> a - 1 < v) = False"
  using assms by arith

lemma digit_not_sign: "is_digit c \<Longrightarrow> c \<noteq> CHR ''-'' \<and> c \<noteq> CHR ''+'' \<and> c \<noteq> CHR ''_''"
  by (auto simp: is_digit_def)

lemma Atoi_decimal:
  assumes "s \<noteq> []" and "list_all is_digit s" and "dec_value s < 2 ^ 63"
  shows "strconv_Atoi s = Inr (int (dec_value s))"
proof -
  from assms(1,2) have "is_digit (hd s)" by (cases s) simp_all
  then have h: "hd s \<noteq> CHR ''-''" "hd s \<noteq> CHR ''+''" using digit_not_sign by blast+
  from assms(3) have "int (dec_value s) < int (2 ^ 63)" by (simp only: of_nat_less_iff)
  then have "int (dec_value s) < 2 ^ 63" by (simp only: of_nat_power of_nat_numeral)
  with int_in_range [of "int (dec_value s)" "2 ^ 63"]
  have r: "(int (dec_value s) < - (2 ^ 63) \<or> 2 ^ 63 - 1 < int (dec_value s)) = False"
    by simp
  from h have plus: "(hd s = CHR ''+'') = False" by simp
  from h have neg: "(hd s = CHR ''-'') = False" by simp
  from assms(2) have chk: "list_all is_digit s = True" by simp
  from assms(1) have ne: "(s = []) = False" by simp
  show ?thesis
    by (simp only: strconv_Atoi_def Let_def ne neg plus simp_thms if_False chk r)
qed

lemma Atoi_rejects_nondigit:
  assumes "c \<in> set (tl s)" and "\<not> is_digit c"
  shows "strconv_Atoi s = Inl NumError"
proof -
  from assms(1) have ne: "s \<noteq> []" by auto
  from assms(1) have "c \<in> set s" by (rule list.set_sel(2) [OF ne])
  with assms have "\<not> list_all is_digit s" and "\<not> list_all is_digit (tl s)"
    by (auto simp: list_all_iff)
  with ne show ?thesis by (simp add: strconv_Atoi_def Let_def)
qed


section \<open>The shappimage offset: the Zig scan\<close>

lemma tokenize_prefixed:
  assumes "take 11 text = sfs_prefix"
  shows "tokenize text (CHR ''='') = ''sfs_offset'' # tokenize (drop 11 text) (CHR ''='')"
  by (simp add: tokenize_def Split_prefixed_line [OF assms])

lemma tokenize_single:
  assumes "v \<noteq> []" and "CHR ''='' \<notin> set v"
  shows "tokenize v (CHR ''='') = [v]"
  using assms by (simp add: tokenize_def strings_Split_def split_from_no_sep)

lemma shimg_value_plain:
  assumes "take 11 text = sfs_prefix" and "drop 11 text \<noteq> []"
    and "CHR ''='' \<notin> set (drop 11 text)"
  shows "shimg_value text = parseInt (drop 11 text)"
  by (simp add: shimg_value_def tokenize_prefixed [OF assms(1)] tokenize_single [OF assms(2,3)])

lemma shimg_value_missing:
  assumes "text = sfs_prefix"
  shows "shimg_value text = Inl NotShimg"
  by (simp add: assms shimg_value_def tokenize_def strings_Split_def sfs_prefix_def)

lemma zig_line_test: "(length text > 10 \<and> take 11 text = ''sfs_offset='') = sfs_line_zig text"
proof (cases "take 11 text = sfs_prefix")
  case True
  with prefixed_line(2) [OF True] show ?thesis by (simp add: sfs_line_zig_def sfs_prefix_def)
next
  case False
  then show ?thesis by (simp add: sfs_line_zig_def sfs_prefix_def)
qed

lemma shimg_lines_Cons:
  "shimg_lines line (ln # rest) =
     (if 255 < length ln then Inl StreamTooLong
      else if 512 < line + 1 then Inl NotShimg
      else if sfs_line_zig ln then shimg_value ln
      else shimg_lines (line + 1) rest)"
  by (simp only: shimg_lines.simps zig_line_test shimg_value_def)

lemma shimg_lines_find:
  assumes "line \<le> 512"
  shows "shimg_lines line ls =
     (case find (\<lambda>t. 255 < length t \<or> sfs_line_zig t) (take (512 - line) ls) of
        Some t \<Rightarrow> if 255 < length t then Inl StreamTooLong else shimg_value t
      | None \<Rightarrow>
          if length ls \<le> 512 - line then Inl InvalidFormat
          else if 255 < length (ls ! (512 - line)) then Inl StreamTooLong
          else Inl NotShimg)"
  using assms
proof (induction ls arbitrary: line)
  case Nil
  then show ?case by simp
next
  case (Cons ln rest)
  show ?case
  proof (cases "line = 512")
    case True
    then show ?thesis by (simp add: shimg_lines_Cons)
  next
    case False
    with Cons.prems have lt: "line < 512" by simp
    then have s: "512 - line = Suc (512 - (line + 1))" by simp
    have t: "take (512 - line) (ln # rest) = ln # take (512 - (line + 1)) rest"
      by (simp only: s take_Suc_Cons)
    have n: "(ln # rest) ! (512 - line) = rest ! (512 - (line + 1))"
      by (simp only: s nth_Cons_Suc)
    from lt have l: "(length (ln # rest) \<le> 512 - line) = (length rest \<le> 512 - (line + 1))"
      by auto
    from lt have IH: "shimg_lines (line + 1) rest =
     (case find (\<lambda>t. 255 < length t \<or> sfs_line_zig t) (take (512 - (line + 1)) rest) of
        Some t \<Rightarrow> if 255 < length t then Inl StreamTooLong else shimg_value t
      | None \<Rightarrow>
          if length rest \<le> 512 - (line + 1) then Inl InvalidFormat
          else if 255 < length (rest ! (512 - (line + 1))) then Inl StreamTooLong
          else Inl NotShimg)"
      by (intro Cons.IH) simp
    from lt have c: "(512 < line + 1) = False" by simp
    show ?thesis
      unfolding shimg_lines_Cons t n l IH c by simp
  qed
qed

section \<open>The shappimage offset: what parseInt accepts\<close>

lemma foldl_digits_ge:
  assumes "1 \<le> (b::nat)"
  shows "x \<le> foldl (\<lambda>n c. n * b + dig c) x s"
proof (induction s arbitrary: x)
  case Nil
  then show ?case by simp
next
  case (Cons c cs)
  from assms have "x \<le> x * b + dig c" by (simp add: trans_le_add1)
  also have "\<dots> \<le> foldl (\<lambda>n c. n * b + dig c) (x * b + dig c) cs" by (rule Cons.IH)
  finally show ?case by simp
qed

lemma parse_digits_value:
  assumes "\<forall>c \<in> set s. c \<noteq> CHR ''_'' \<and> charToDigit c b = Inr (dig c)"
    and "1 \<le> b"
    and "foldl (\<lambda>n c. n * b + dig c) x s < 2 ^ 64"
  shows "parse_digits False b x s = Inr (foldl (\<lambda>n c. n * b + dig c) x s)"
  using assms(1,3)
proof (induction s arbitrary: x)
  case Nil
  then show ?case by simp
next
  case (Cons c cs)
  let ?y = "x * b + dig c"
  from Cons.prems(2) have fin: "foldl (\<lambda>n c. n * b + dig c) ?y cs < 2 ^ 64" by simp
  have "?y \<le> foldl (\<lambda>n c. n * b + dig c) ?y cs" by (rule foldl_digits_ge [OF assms(2)])
  then have "?y < 2 ^ 64" using fin by (rule le_less_trans)
  then have ok: "(2 ^ 64 \<le> ?y) = False" by (simp only: not_le [symmetric] simp_thms)
  from Cons.prems(1) have c: "(c = CHR ''_'') = False" "charToDigit c b = Inr (dig c)"
    by simp_all
  from Cons.prems(1) have "\<forall>c \<in> set cs. c \<noteq> CHR ''_'' \<and> charToDigit c b = Inr (dig c)"
    by simp
  from Cons.IH [OF this fin]
  have "parse_digits False b ?y cs = Inr (foldl (\<lambda>n c. n * b + dig c) ?y cs)" .
  then show ?case
    by (simp only: parse_digits.simps c sum.case if_False ok foldl_Cons)
qed

lemma digit_in_base_10:
  assumes "is_digit c"
  shows "c \<noteq> CHR ''_''" and "charToDigit c 10 = Inr (digit_val c)"
    and "toLower c = c" and "c \<noteq> CHR ''b''" and "c \<noteq> CHR ''o''" and "c \<noteq> CHR ''x''"
  using assms
  by (auto simp: is_digit_def charToDigit_def digit_val_def toLower_def Let_def)

lemma digit_in_base_16:
  assumes "is_hex c"
  shows "c \<noteq> CHR ''_''" and "charToDigit c 16 = Inr (hex_val c)"
proof -
  from assms show "charToDigit c 16 = Inr (hex_val c)"
    by (simp add: is_hex_def hex_val_def split: sum.splits)
  have "charToDigit (CHR ''_'') 16 = Inl InvalidCharacter"
    by (simp add: charToDigit_def)
  with assms show "c \<noteq> CHR ''_''" by (auto simp: is_hex_def)
qed

lemma dec_value_foldl: "foldl (\<lambda>n c. n * 10 + digit_val c) 0 s = dec_value s"
proof -
  have "(\<lambda>n c. n * 10 + digit_val c) = (\<lambda>n c. 10 * n + digit_val c)"
    by (simp add: mult.commute)
  then show ?thesis by (simp only: dec_value_def)
qed

lemma parseWithSign_base10:
  assumes "s \<noteq> []" and "hd s \<noteq> CHR ''_''" and "last s \<noteq> CHR ''_''"
    and "2 < length s \<Longrightarrow> hd s = CHR ''0'' \<Longrightarrow>
           toLower (s ! 1) \<noteq> CHR ''b'' \<and> toLower (s ! 1) \<noteq> CHR ''o''
           \<and> toLower (s ! 1) \<noteq> CHR ''x''"
  shows "parseWithSign s False = map_sum id of_nat (parse_digits False 10 0 s)"
  using assms by (auto simp: parseWithSign_def Let_def)

lemma parseWithSign_base16:
  assumes "h \<noteq> []" and "hd h \<noteq> CHR ''_''" and "last h \<noteq> CHR ''_''"
  shows "parseWithSign (''0x'' @ h) False = map_sum id of_nat (parse_digits False 16 0 h)"
  using assms by (simp add: parseWithSign_def Let_def toLower_def)

lemma parseInt_decimal:
  assumes "v \<noteq> []" and "list_all is_digit v" and "dec_value v < 2 ^ 64"
  shows "parseInt v = Inr (of_nat (dec_value v))"
proof -
  from assms(1,2) have d: "is_digit (hd v)" "is_digit (last v)"
    by (simp_all add: list_all_iff)
  have one: "2 < length v \<Longrightarrow> is_digit (v ! 1)"
    using assms(2) by (simp add: list_all_length)
  from d digit_in_base_10 have h: "hd v \<noteq> CHR ''_''" "last v \<noteq> CHR ''_''" by blast+
  from d(1) digit_not_sign have sgn: "hd v \<noteq> CHR ''+''" "hd v \<noteq> CHR ''-''" by blast+
  have "parseWithSign v False = map_sum id of_nat (parse_digits False 10 0 v)"
  proof (rule parseWithSign_base10 [OF assms(1) h])
    assume "2 < length v"
    then have "is_digit (v ! 1)" by (rule one)
    with digit_in_base_10 [of "v ! 1"]
    show "toLower (v ! 1) \<noteq> CHR ''b'' \<and> toLower (v ! 1) \<noteq> CHR ''o''
           \<and> toLower (v ! 1) \<noteq> CHR ''x''"
      by simp
  qed
  moreover have "parse_digits False 10 0 v = Inr (dec_value v)"
  proof -
    from assms(2) digit_in_base_10
    have "\<forall>c \<in> set v. c \<noteq> CHR ''_'' \<and> charToDigit c 10 = Inr (digit_val c)"
      by (auto simp: list_all_iff)
    moreover from assms(3) have "foldl (\<lambda>n c. n * 10 + digit_val c) 0 v < 2 ^ 64"
      by (simp only: dec_value_foldl)
    ultimately have "parse_digits False 10 0 v = Inr (foldl (\<lambda>n c. n * 10 + digit_val c) 0 v)"
      by (intro parse_digits_value) simp_all
    then show ?thesis by (simp only: dec_value_foldl)
  qed
  ultimately show ?thesis using assms(1) sgn by (simp add: parseInt_def)
qed

lemma parseInt_hex:
  assumes "h \<noteq> []" and "list_all is_hex h" and "hex_value h < 2 ^ 64"
  shows "parseInt (''0x'' @ h) = Inr (of_nat (hex_value h))"
proof -
  from assms(1,2) have d: "is_hex (hd h)" "is_hex (last h)"
    by (simp_all add: list_all_iff)
  with digit_in_base_16 have u: "hd h \<noteq> CHR ''_''" "last h \<noteq> CHR ''_''" by blast+
  have "parse_digits False 16 0 h = Inr (hex_value h)"
  proof -
    from assms(2) digit_in_base_16
    have "\<forall>c \<in> set h. c \<noteq> CHR ''_'' \<and> charToDigit c 16 = Inr (hex_val c)"
      by (auto simp: list_all_iff)
    moreover from assms(3) have "foldl (\<lambda>n c. n * 16 + hex_val c) 0 h < 2 ^ 64"
      by (simp only: hex_value_def)
    ultimately have "parse_digits False 16 0 h = Inr (foldl (\<lambda>n c. n * 16 + hex_val c) 0 h)"
      by (intro parse_digits_value) simp_all
    then show ?thesis by (simp only: hex_value_def)
  qed
  with parseWithSign_base16 [OF assms(1) u] show ?thesis by (simp add: parseInt_def)
qed

lemma parseInt_quote:
  assumes "q \<noteq> []" and "hd q = CHR 0x27 \<or> hd q = CHR 0x22"
  shows "parseInt q = Inl InvalidCharacter"
proof -
  from assms obtain c cs where q: "q = c # cs" and c: "c = CHR 0x27 \<or> c = CHR 0x22"
    by (cases q) auto
  from c have "charToDigit c 10 = Inl InvalidCharacter"
    by (auto simp: charToDigit_def)
  with c have "parse_digits False 10 0 (c # cs) = Inl InvalidCharacter" by auto
  moreover from c have "parseWithSign (c # cs) False =
      (if last (c # cs) = CHR ''_'' then Inl InvalidCharacter
       else map_sum id of_nat (parse_digits False 10 0 (c # cs)))"
    by (auto simp: parseWithSign_def Let_def)
  ultimately have "parseWithSign (c # cs) False = Inl InvalidCharacter" by simp
  with c show ?thesis unfolding q by (auto simp: parseInt_def)
qed

section \<open>The shappimage offset: the two scans on the example files\<close>

lemma shimg_quoted_chunks:
  "scan_chunks [] shimg_quoted = [''#!/bin/sh'', ''#.shImg.#'', quoted_line]"
  by (simp add: shimg_quoted_def shimg_magic_def quoted_line_def)

lemma shimg_hex_chunks:
  "scan_chunks [] shimg_hex = [''#!/bin/sh'', ''#.shImg.#'', ''sfs_offset=0x1000'']"
  by (simp add: shimg_hex_def shimg_magic_def)

lemma short_chunks_Scanner_lines:
  assumes "scan_chunks [] f = ls"
    and "list_all (\<lambda>l. length l < 100 \<and> (l = [] \<or> last l \<noteq> CHR 0x0D)) ls"
  shows "Scanner_lines f = ls"
proof -
  from assms(2) have "\<forall>l \<in> set ls. length l < MaxScanTokenSize"
    by (auto simp: MaxScanTokenSize_def list_all_iff)
  then have tw: "takeWhile (\<lambda>chunk. length chunk < MaxScanTokenSize) ls = ls"
    by (simp only: takeWhile_eq_all_conv)
  from assms(2) have "\<forall>l \<in> set ls. dropCR l = l"
    by (auto simp: dropCR_def list_all_iff)
  then have md: "map dropCR ls = ls" by (simp add: map_idI)
  show ?thesis by (simp only: Scanner_lines_def assms(1) tw md)
qed

lemma shimg_quoted_Scanner:
  "Scanner_lines shimg_quoted = [''#!/bin/sh'', ''#.shImg.#'', quoted_line]"
  by (rule short_chunks_Scanner_lines [OF shimg_quoted_chunks]) (simp add: quoted_line_def)

lemma shimg_hex_Scanner:
  "Scanner_lines shimg_hex = [''#!/bin/sh'', ''#.shImg.#'', ''sfs_offset=0x1000'']"
  by (rule short_chunks_Scanner_lines [OF shimg_hex_chunks]) simp

lemma example_lines_go:
  "\<not> sfs_line_go ''#!/bin/sh''" "\<not> sfs_line_go ''#.shImg.#''" "\<not> sfs_line_go []"
  "sfs_line_go quoted_line" "sfs_line_go ''sfs_offset=0x1000''" "sfs_line_go ''sfs_offset=4096''"
  by (simp_all add: sfs_line_go_def sfs_prefix_def quoted_line_def)

lemma example_lines_zig:
  "\<not> sfs_line_zig ''#!/bin/sh''" "\<not> sfs_line_zig ''#.shImg.#''" "\<not> sfs_line_zig []"
  "sfs_line_zig quoted_line" "sfs_line_zig ''sfs_offset=0x1000''" "sfs_line_zig ''sfs_offset=4096''"
  by (simp_all add: sfs_line_zig_def sfs_prefix_def quoted_line_def)

lemma example_values:
  "unquote (drop 11 quoted_line) = ''4096''"
  "drop 11 quoted_line = [CHR 0x27] @ ''4096'' @ [CHR 0x27]"
  "dec_value ''4096'' = 4096"
  "hex_value ''1000'' = 4096"
  "list_all is_hex ''1000''"
  "list_all is_digit ''4096''"
  by (simp_all add: unquote_def quoted_line_def dec_value_def digit_val_def hex_value_def
      hex_val_def is_hex_def is_digit_def charToDigit_def)

lemma scan_chunks_newlines:
  "scan_chunks [] (replicate n (CHR 0x0A) @ rest) = replicate n [] @ scan_chunks [] rest"
  by (induction n) auto

lemma shimg_late_chunks:
  "scan_chunks [] shimg_late
     = [''#!/bin/sh'', ''#.shImg.#''] @ replicate 512 [] @ [''sfs_offset=4096'']"
proof -
  have "scan_chunks [] (shimg_magic @ [CHR 0x0A] @ rest)
          = [''#!/bin/sh'', ''#.shImg.#''] @ scan_chunks [] rest" for rest
    by (simp add: shimg_magic_def)
  moreover have "scan_chunks [] ''sfs_offset=4096\<newline>'' = [''sfs_offset=4096'']" by simp
  ultimately show ?thesis
    by (simp only: shimg_late_def scan_chunks_newlines)
qed

lemma shimg_late_Scanner:
  "Scanner_lines shimg_late
     = [''#!/bin/sh'', ''#.shImg.#''] @ replicate 512 [] @ [''sfs_offset=4096'']"
  by (rule short_chunks_Scanner_lines [OF shimg_late_chunks]) (simp add: list_all_iff)

lemma find_after_blanks:
  assumes "\<not> P []"
  shows "find P (replicate n [] @ ls) = find P ls"
  using assms by (induction n) simp_all

lemma shimg_kind_go:
  assumes "take 19 f = shimg_magic"
  shows "GetAppImageType [''app'' \<mapsto> f] ''app'' = Inr (- 2)"
  using GetAppImageType_cases [of "[''app'' \<mapsto> f]" "''app''" f] shimg_not_elf [OF assms] assms
  by simp

lemma example_magic:
  "take 19 shimg_quoted = shimg_magic" "take 19 shimg_hex = shimg_magic"
  "take 19 shimg_late = shimg_magic"
  by (simp_all add: shimg_quoted_def shimg_hex_def shimg_late_def magic_lengths)

lemma small_values: "(4096::nat) < 2 ^ 63" "(4096::nat) < 2 ^ 64"
  by simp_all

text \<open>
  C3 (as amended). For a shappimage the Go resolution is \<open>getShappImageSize\<close>: it goes
  through every line the scanner yields, with no bound of 512 lines; the first line that
  starts with \<open>sfs_offset=\<close> and has no further \<open>=\<close> wins; every single and double
  quote is deleted from the rest of that line and the result is read by \<open>Atoi\<close>, which
  takes decimal digits and fails on any other character after the first, the \<open>x\<close> of a
  hexadecimal prefix included; with no such line the result is the not-found error.
  The Zig resolution is \<open>getOffsetFromShimg\<close>: it reads at most the first 512 lines,
  each of at most 255 bytes; the first line that starts with \<open>sfs_offset=\<close> wins; its
  value is read by \<open>parseInt\<close> as it stands, which takes decimal digits and
  \<open>0x\<close>-prefixed hexadecimal digits and fails on a quote; with no such line the result
  is \<open>InvalidFormat\<close> at the end of the file and \<open>NotShimg\<close> at the 513th line.
\<close>

theorem sfs_offset_resolution:
  "(GetAppImageType fs src = Inr (- 2) \<longrightarrow> GetOffset nf fs src = getShappImageSize fs src)
   \<and> (fs src = Some f \<longrightarrow>
        getShappImageSize fs src =
          (case find sfs_line_go (Scanner_lines f) of
             None \<Rightarrow> Inl OffsetVarNotFound
           | Some l \<Rightarrow> strconv_Atoi (unquote (drop 11 l))))
   \<and> (s \<noteq> [] \<and> list_all is_digit s \<and> dec_value s < 2 ^ 63
        \<longrightarrow> strconv_Atoi s = Inr (int (dec_value s)))
   \<and> (c \<in> set (tl s) \<and> \<not> is_digit c \<longrightarrow> strconv_Atoi s = Inl NumError)
   \<and> (getKind img = Inr shimg \<longrightarrow> open_offset read img = getOffsetFromShimg img)
   \<and> getOffsetFromShimg img =
        (case find (\<lambda>t. 255 < length t \<or> sfs_line_zig t) (take 512 (scan_chunks [] img)) of
           Some t \<Rightarrow> if 255 < length t then Inl StreamTooLong else shimg_value t
         | None \<Rightarrow>
             if length (scan_chunks [] img) \<le> 512 then Inl InvalidFormat
             else if 255 < length (scan_chunks [] img ! 512) then Inl StreamTooLong
             else Inl NotShimg)
   \<and> (take 11 ln = sfs_prefix \<and> drop 11 ln \<noteq> [] \<and> CHR ''='' \<notin> set (drop 11 ln)
        \<longrightarrow> shimg_value ln = parseInt (drop 11 ln))
   \<and> (v \<noteq> [] \<and> list_all is_digit v \<and> dec_value v < 2 ^ 64
        \<longrightarrow> parseInt v = Inr (of_nat (dec_value v)))
   \<and> (h \<noteq> [] \<and> list_all is_hex h \<and> hex_value h < 2 ^ 64
        \<longrightarrow> parseInt (''0x'' @ h) = Inr (of_nat (hex_value h)))
   \<and> (q \<noteq> [] \<and> (hd q = CHR 0x27 \<or> hd q = CHR 0x22) \<longrightarrow> parseInt q = Inl InvalidCharacter)"
proof -
  have g1: "GetAppImageType fs src = Inr (- 2) \<longrightarrow> GetOffset nf fs src = getShappImageSize fs src"
    by (simp add: GetOffset_def)
  have g2: "fs src = Some f \<longrightarrow>
        getShappImageSize fs src =
          (case find sfs_line_go (Scanner_lines f) of
             None \<Rightarrow> Inl OffsetVarNotFound
           | Some l \<Rightarrow> strconv_Atoi (unquote (drop 11 l)))"
    by (simp add: getShappImageSize_def scan_sfs_offset_find)
  have g3: "s \<noteq> [] \<and> list_all is_digit s \<and> dec_value s < 2 ^ 63
        \<longrightarrow> strconv_Atoi s = Inr (int (dec_value s))"
    using Atoi_decimal [of s] by blast
  have g4: "c \<in> set (tl s) \<and> \<not> is_digit c \<longrightarrow> strconv_Atoi s = Inl NumError"
    using Atoi_rejects_nondigit [of c s] by blast
  have z1: "getKind img = Inr shimg \<longrightarrow> open_offset read img = getOffsetFromShimg img"
    by (simp add: open_offset_def)
  have z2: "getOffsetFromShimg img =
        (case find (\<lambda>t. 255 < length t \<or> sfs_line_zig t) (take 512 (scan_chunks [] img)) of
           Some t \<Rightarrow> if 255 < length t then Inl StreamTooLong else shimg_value t
         | None \<Rightarrow>
             if length (scan_chunks [] img) \<le> 512 then Inl InvalidFormat
             else if 255 < length (scan_chunks [] img ! 512) then Inl StreamTooLong
             else Inl NotShimg)"
    using shimg_lines_find [of 0 "scan_chunks [] img"] by (simp add: getOffsetFromShimg_def)
  have z3: "take 11 ln = sfs_prefix \<and> drop 11 ln \<noteq> [] \<and> CHR ''='' \<notin> set (drop 11 ln)
        \<longrightarrow> shimg_value ln = parseInt (drop 11 ln)"
    using shimg_value_plain [of ln] by blast
  have z4: "v \<noteq> [] \<and> list_all is_digit v \<and> dec_value v < 2 ^ 64
        \<longrightarrow> parseInt v = Inr (of_nat (dec_value v))"
    using parseInt_decimal [of v] by blast
  have z5: "h \<noteq> [] \<and> list_all is_hex h \<and> hex_value h < 2 ^ 64
        \<longrightarrow> parseInt (''0x'' @ h) = Inr (of_nat (hex_value h))"
    using parseInt_hex [of h] by blast
  have z6: "q \<noteq> [] \<and> (hd q = CHR 0x27 \<or> hd q = CHR 0x22) \<longrightarrow> parseInt q = Inl InvalidCharacter"
    using parseInt_quote [of q] by blast
  show ?thesis
    by (intro conjI) (rule g1 g2 g3 g4 z1 z2 z3 z4 z5 z6)+
qed

theorem sfs_offset_resolution_witness:
  "GetOffset (elf_NewFile tables_in_file) [''app'' \<mapsto> shimg_quoted] ''app'' = Inr 4096
   \<and> getOffsetFromShimg shimg_file = Inr 4096
   \<and> getOffsetFromShimg shimg_hex = Inr 4096"
proof -
  note go = sfs_offset_resolution [where fs = "[''app'' \<mapsto> shimg_quoted]" and src = "''app''"
      and nf = "elf_NewFile tables_in_file" and f = shimg_quoted and s = "''4096''"]
  have f1: "find sfs_line_go (Scanner_lines shimg_quoted) = Some quoted_line"
    by (simp add: shimg_quoted_Scanner example_lines_go)
  have d: "dec_value ''4096'' < 2 ^ 63" "dec_value ''4096'' < 2 ^ 64"
    by (simp_all only: example_values small_values)
  from go shimg_kind_go [OF example_magic(1)]
  have e1: "GetOffset (elf_NewFile tables_in_file) [''app'' \<mapsto> shimg_quoted] ''app''
          = getShappImageSize [''app'' \<mapsto> shimg_quoted] ''app''"
    by blast
  from go have e2: "getShappImageSize [''app'' \<mapsto> shimg_quoted] ''app''
          = strconv_Atoi (unquote (drop 11 quoted_line))"
    by (simp add: f1)
  from go example_values(6) d(1)
  have e3: "strconv_Atoi ''4096'' = Inr (int (dec_value ''4096''))"
    by blast
  have a: "GetOffset (elf_NewFile tables_in_file) [''app'' \<mapsto> shimg_quoted] ''app'' = Inr 4096"
    by (simp only: e1 e2 example_values(1) e3 example_values(3)) simp
  note z = sfs_offset_resolution [where img = shimg_file and ln = "''sfs_offset=4096''"
      and v = "''4096''"]
  have f2: "find (\<lambda>t. 255 < length t \<or> sfs_line_zig t) (take 512 (scan_chunks [] shimg_file))
      = Some ''sfs_offset=4096''"
    by (simp add: shimg_file_lines example_lines_zig)
  from z have "getOffsetFromShimg shimg_file = shimg_value ''sfs_offset=4096''"
    by (simp add: f2)
  moreover from z have "shimg_value ''sfs_offset=4096'' = parseInt ''4096''"
    by (simp add: sfs_prefix_def)
  moreover from z example_values(6) d(2) have "parseInt ''4096'' = Inr (of_nat (dec_value ''4096''))"
    by blast
  ultimately have b: "getOffsetFromShimg shimg_file = Inr 4096"
    by (simp add: example_values)
  note x = sfs_offset_resolution [where img = shimg_hex and ln = "''sfs_offset=0x1000''"
      and h = "''1000''"]
  have f3: "find (\<lambda>t. 255 < length t \<or> sfs_line_zig t) (take 512 (scan_chunks [] shimg_hex))
      = Some ''sfs_offset=0x1000''"
    by (simp add: shimg_hex_chunks example_lines_zig)
  have hv: "hex_value ''1000'' < 2 ^ 64" by (simp only: example_values small_values)
  from x have "getOffsetFromShimg shimg_hex = shimg_value ''sfs_offset=0x1000''"
    by (simp add: f3)
  moreover from x have "shimg_value ''sfs_offset=0x1000'' = parseInt (''0x'' @ ''1000'')"
    by (simp add: sfs_prefix_def)
  moreover from x example_values(5) hv
  have "parseInt (''0x'' @ ''1000'') = Inr (of_nat (hex_value ''1000''))"
    by blast
  ultimately have c: "getOffsetFromShimg shimg_hex = Inr 4096"
    by (simp add: example_values)
  from a b c show ?thesis by blast
qed

text \<open>
  The claim as stated fails on each implementation. Go takes the hexadecimal value for
  a number error, and finds an offset line that comes after the first 512 lines. Zig
  does not strip the quotes of \<open>sfs_offset='4096'\<close> and fails on the first of them.
\<close>

theorem sfs_offset_counterexample:
  "getShappImageSize [''app'' \<mapsto> shimg_hex] ''app'' = Inl NumError
   \<and> getShappImageSize [''app'' \<mapsto> shimg_late] ''app'' = Inr 4096
   \<and> getOffsetFromShimg shimg_quoted = Inl InvalidCharacter"
proof -
  have "find sfs_line_go (Scanner_lines shimg_hex) = Some ''sfs_offset=0x1000''"
    by (simp add: shimg_hex_Scanner example_lines_go)
  moreover have "strconv_Atoi (unquote (drop 11 ''sfs_offset=0x1000'')) = Inl NumError"
  proof -
    have "unquote (drop 11 ''sfs_offset=0x1000'') = ''0x1000''" by (simp add: unquote_def)
    moreover have "CHR ''x'' \<in> set (tl ''0x1000'')" "\<not> is_digit (CHR ''x'')"
      by (simp_all add: is_digit_def)
    ultimately show ?thesis using Atoi_rejects_nondigit [of "CHR ''x''" "''0x1000''"] by simp
  qed
  ultimately have a: "getShappImageSize [''app'' \<mapsto> shimg_hex] ''app'' = Inl NumError"
    by (simp add: getShappImageSize_def scan_sfs_offset_find)
  have "find sfs_line_go (Scanner_lines shimg_late) = Some ''sfs_offset=4096''"
    by (simp only: shimg_late_Scanner append_Cons append_Nil find.simps example_lines_go
        if_False if_True find_after_blanks [of sfs_line_go, OF example_lines_go(3)])
  moreover have "strconv_Atoi (unquote (drop 11 ''sfs_offset=4096'')) = Inr 4096"
  proof -
    have "unquote (drop 11 ''sfs_offset=4096'') = ''4096''" by (simp add: unquote_def)
    moreover have "dec_value ''4096'' < 2 ^ 63" by (simp only: example_values small_values)
    ultimately show ?thesis using Atoi_decimal [of "''4096''"] example_values(3,6) by simp
  qed
  ultimately have b: "getShappImageSize [''app'' \<mapsto> shimg_late] ''app'' = Inr 4096"
    by (simp add: getShappImageSize_def scan_sfs_offset_find)
  have "find (\<lambda>t. 255 < length t \<or> sfs_line_zig t) (take 512 (scan_chunks [] shimg_quoted))
      = Some quoted_line"
    by (simp add: shimg_quoted_chunks example_lines_zig)
  moreover have "length quoted_line \<le> 255" by (simp add: quoted_line_def)
  moreover have "shimg_value quoted_line = Inl InvalidCharacter"
  proof -
    have "take 11 quoted_line = sfs_prefix" "drop 11 quoted_line \<noteq> []"
      "CHR ''='' \<notin> set (drop 11 quoted_line)" "hd (drop 11 quoted_line) = CHR 0x27"
      by (simp_all add: quoted_line_def sfs_prefix_def)
    with shimg_value_plain [of quoted_line] parseInt_quote [of "drop 11 quoted_line"]
    show ?thesis by simp
  qed
  ultimately have c: "getOffsetFromShimg shimg_quoted = Inl InvalidCharacter"
    using shimg_lines_find [of 0 "scan_chunks [] shimg_quoted"]
    by (simp add: getOffsetFromShimg_def)
  from a b c show ?thesis by blast
qed

end
